theory Spec2Isabelle
  imports Main
begin

section \<open>Data model (shared/schema.ts)\<close>

text \<open>
  Timestamps are milliseconds since the epoch (\<open>Date.getTime()\<close>), serial and integer
  columns are \<open>int\<close>, text columns are \<open>string\<close>, and a nullable column is an
  \<open>option\<close>. Columns that no modelled statement reads or writes (\<open>password\<close>,
  \<open>profilePicture\<close>, \<open>description\<close>, \<open>createdAt\<close>, \<open>updatedAt\<close>, \<open>uploadedAt\<close>,
  the serial id of \<open>collection_owners\<close>) are left out of the rows.
\<close>

type_synonym timestamp = int

datatype collection_type = Nature | Travels | Favorites | Custom

record user =
  user_id :: int
  user_username :: string
  user_displayName :: string

record session =
  session_id :: string
  session_userId :: int
  session_username :: string
  session_expiresAt :: timestamp

record collection =
  collection_id :: int
  collection_name :: string
  collection_type :: collection_type
  collection_userId :: "int option"
  collection_isTemporary :: "bool option"
  collection_sessionId :: "string option"
  collection_expiresAt :: "timestamp option"

record collectionOwner =
  owner_collectionId :: int
  owner_userId :: int

record photo =
  photo_id :: int
  photo_title :: string
  photo_fileName :: string
  photo_fileType :: string
  photo_filePath :: string
  photo_isLiked :: "bool option"
  photo_collectionId :: "int option"
  photo_isTemporary :: "bool option"
  photo_sessionId :: "string option"
  photo_expiresAt :: "timestamp option"

record partnership =
  partnership_user1Id :: int
  partnership_user2Id :: int

section \<open>The world: database tables, blob store, failures and the trace\<close>

text \<open>
  Every \<open>await db...\<close> statement either takes effect atomically or raises. Which
  statements raise is not decided by the code, so it is an input: \<open>dbFaults\<close> is a
  schedule consumed one entry per statement, \<open>Some e\<close> meaning that the statement raises
  \<open>e\<close> without effect; an exhausted schedule means that no further statement raises.
  A constraint violation reported by the database is one such raise. \<open>blobFaults\<close> is
  the same for \<open>fileRef.delete()\<close> and \<open>fileRef.save()\<close> of the blob store.

  The trace records, in order, the effects whose order the specification talks about:
  a deletion requested from the blob store, photo rows removed by a statement, and a
  call of \<open>console.error\<close> (with the fixed prefix of its message).
\<close>

datatype db_error = ETIMEDOUT | ECONNRESET | OtherDbError

datatype error = DbError db_error | BlobError | Thrown string

datatype event =
    BlobDeleteAttempt string
  | PhotoRowsDeleted "int list"
  | ConsoleError string

record world =
  users :: "user list"
  sessions :: "session list"
  collections :: "collection list"
  collectionOwners :: "collectionOwner list"
  photos :: "photo list"
  partnerships :: "partnership list"
  userSeq :: int
  collectionSeq :: int
  photoSeq :: int
  blobs :: "string list"
  dbFaults :: "db_error option list"
  blobFaults :: "bool list"
  trace :: "event list"

type_synonym 'a io = "world \<Rightarrow> 'a \<times> world"
type_synonym 'a throwing = "world \<Rightarrow> (error + 'a) \<times> world"

definition console_error :: "string \<Rightarrow> world \<Rightarrow> world" where
  "console_error msg w = w\<lparr>trace := trace w @ [ConsoleError msg]\<rparr>"

text \<open>One database statement: \<open>f\<close> is its effect when it does not raise.\<close>

definition db_stmt :: "(world \<Rightarrow> 'a \<times> world) \<Rightarrow> 'a throwing" where
  "db_stmt f w =
     (case dbFaults w of
        [] \<Rightarrow> (case f w of (r, w') \<Rightarrow> (Inr r, w'))
      | None # fs \<Rightarrow> (case f (w\<lparr>dbFaults := fs\<rparr>) of (r, w') \<Rightarrow> (Inr r, w'))
      | Some e # fs \<Rightarrow> (Inl (DbError e), w\<lparr>dbFaults := fs\<rparr>))"

text \<open>
  Exceptions: \<open>bindE\<close> is \<open>await a; b\<close> (a raise in \<open>a\<close> skips \<open>b\<close>), \<open>catchE\<close> is
  \<open>try { m } catch (error) { h }\<close> with a handler that returns, \<open>logRethrow\<close> is
  \<open>try { m } catch (error) { console.error(msg, error); throw error; }\<close>, and \<open>lift\<close>
  embeds a function that never raises.
\<close>

definition returnE :: "'a \<Rightarrow> 'a throwing" where
  "returnE x w = (Inr x, w)"

definition bindE :: "'a throwing \<Rightarrow> ('a \<Rightarrow> 'b throwing) \<Rightarrow> 'b throwing" where
  "bindE m f w = (case m w of (Inl e, w1) \<Rightarrow> (Inl e, w1) | (Inr x, w1) \<Rightarrow> f x w1)"

definition catchE :: "'a throwing \<Rightarrow> (error \<Rightarrow> 'a io) \<Rightarrow> 'a io" where
  "catchE m h w = (case m w of (Inl e, w1) \<Rightarrow> h e w1 | (Inr x, w1) \<Rightarrow> (x, w1))"

definition logRethrow :: "string \<Rightarrow> 'a throwing \<Rightarrow> 'a throwing" where
  "logRethrow msg m w =
     (case m w of (Inl e, w1) \<Rightarrow> (Inl e, console_error msg w1) | (Inr x, w1) \<Rightarrow> (Inr x, w1))"

definition lift :: "'a io \<Rightarrow> 'a throwing" where
  "lift m w = (case m w of (x, w1) \<Rightarrow> (Inr x, w1))"

definition logged :: "string \<Rightarrow> 'a \<Rightarrow> error \<Rightarrow> 'a io" where
  "logged msg x e w = (x, console_error msg w)"

text \<open>\<open>for (const x of xs) { await body(x) }\<close> with a body that never raises.\<close>

fun forEach :: "'a list \<Rightarrow> ('a \<Rightarrow> unit io) \<Rightarrow> unit io" where
  "forEach [] body w = ((), w)"
| "forEach (x # xs) body w = forEach xs body (snd (body x w))"

subsection \<open>Row removal with the referential actions of schema.ts\<close>

text \<open>
  \<open>onDelete: "cascade"\<close> is declared on \<open>collections.sessionId\<close>, \<open>photos.sessionId\<close>,
  \<open>collectionOwners.collectionId\<close>, \<open>collectionOwners.userId\<close>, \<open>sessions.userId\<close> and
  on both columns of \<open>partnerships\<close>; a removal takes the referencing rows with it.
  References declared without an action (\<open>photos.collectionId\<close>, \<open>collections.userId\<close>)
  make the database reject a removal that would leave them dangling: such a statement
  is a raising one, covered by the fault schedule.
\<close>

definition in_ids :: "'a option \<Rightarrow> 'a list \<Rightarrow> bool" where
  "in_ids v xs = (case v of None \<Rightarrow> False | Some x \<Rightarrow> x \<in> set xs)"

definition remove_photos :: "(photo \<Rightarrow> bool) \<Rightarrow> world \<Rightarrow> world" where
  "remove_photos P w =
     w\<lparr>photos := filter (\<lambda>p. \<not> P p) (photos w),
       trace := trace w @ [PhotoRowsDeleted (map photo_id (filter P (photos w)))]\<rparr>"

definition remove_owners :: "(collectionOwner \<Rightarrow> bool) \<Rightarrow> world \<Rightarrow> world" where
  "remove_owners P w = w\<lparr>collectionOwners := filter (\<lambda>ow. \<not> P ow) (collectionOwners w)\<rparr>"

definition remove_collections :: "(collection \<Rightarrow> bool) \<Rightarrow> world \<Rightarrow> world" where
  "remove_collections P w =
     (let gone = map collection_id (filter P (collections w))
      in remove_owners (\<lambda>ow. owner_collectionId ow \<in> set gone)
           (w\<lparr>collections := filter (\<lambda>c. \<not> P c) (collections w)\<rparr>))"

definition remove_sessions :: "(session \<Rightarrow> bool) \<Rightarrow> world \<Rightarrow> world" where
  "remove_sessions P w =
     (let gone = map session_id (filter P (sessions w))
      in remove_collections (\<lambda>c. in_ids (collection_sessionId c) gone)
           (remove_photos (\<lambda>p. in_ids (photo_sessionId p) gone)
              (w\<lparr>sessions := filter (\<lambda>s. \<not> P s) (sessions w)\<rparr>)))"

definition remove_users :: "(user \<Rightarrow> bool) \<Rightarrow> world \<Rightarrow> world" where
  "remove_users P w =
     (let gone = map user_id (filter P (users w))
      in remove_sessions (\<lambda>s. session_userId s \<in> set gone)
           (remove_owners (\<lambda>ow. owner_userId ow \<in> set gone)
              (w\<lparr>users := filter (\<lambda>u. \<not> P u) (users w),
                 partnerships := filter (\<lambda>pt. partnership_user1Id pt \<notin> set gone
                                     \<and> partnership_user2Id pt \<notin> set gone) (partnerships w)\<rparr>)))"

text \<open>A read-only statement, and a statement without \<open>.returning()\<close>.\<close>

definition db_select :: "(world \<Rightarrow> 'a) \<Rightarrow> 'a throwing" where
  "db_select q = db_stmt (\<lambda>w. (q w, w))"

definition db_exec :: "(world \<Rightarrow> world) \<Rightarrow> unit throwing" where
  "db_exec f = db_stmt (\<lambda>w. ((), f w))"

subsection \<open>Blob store (Firebase Storage bucket)\<close>

text \<open>
  \<open>fileRef.delete()\<close> raises when the store fails and when the object does not exist;
  otherwise the object is gone. The request itself is recorded in the trace.
\<close>

definition blob_delete :: "string \<Rightarrow> unit throwing" where
  "blob_delete key w =
     (let w1 = w\<lparr>trace := trace w @ [BlobDeleteAttempt key]\<rparr>
      in case blobFaults w1 of
           True # fs \<Rightarrow> (Inl BlobError, w1\<lparr>blobFaults := fs\<rparr>)
         | False # fs \<Rightarrow>
             (if key \<in> set (blobs w1)
              then (Inr (), w1\<lparr>blobFaults := fs, blobs := removeAll key (blobs w1)\<rparr>)
              else (Inl BlobError, w1\<lparr>blobFaults := fs\<rparr>))
         | [] \<Rightarrow>
             (if key \<in> set (blobs w1)
              then (Inr (), w1\<lparr>blobs := removeAll key (blobs w1)\<rparr>)
              else (Inl BlobError, w1)))"

definition blob_save :: "string \<Rightarrow> unit throwing" where
  "blob_save key w =
     (case blobFaults w of
        True # fs \<Rightarrow> (Inl BlobError, w\<lparr>blobFaults := fs\<rparr>)
      | False # fs \<Rightarrow> (Inr (), w\<lparr>blobFaults := fs, blobs := key # removeAll key (blobs w)\<rparr>)
      | [] \<Rightarrow> (Inr (), w\<lparr>blobs := key # removeAll key (blobs w)\<rparr>))"

text \<open>JavaScript truthiness of a nullable boolean: \<open>!v\<close> is \<open>\<not> truthy v\<close>.\<close>

definition truthy :: "bool option \<Rightarrow> bool" where
  "truthy v = (v = Some True)"

section \<open>photo-model.ts\<close>

text \<open>\<open>getPhoto\<close>: \<open>select().from(photos).where(eq(photos.id, id))\<close>, then \<open>result[0]\<close>.\<close>

definition getPhoto :: "int \<Rightarrow> photo option throwing" where
  "getPhoto i = db_stmt (\<lambda>w. (find (\<lambda>p. photo_id p = i) (photos w), w))"

text \<open>\<open>update(photos).set({ isLiked: v }).where(eq(photos.id, id)).returning()\<close>.\<close>

definition update_photo_isLiked :: "int \<Rightarrow> bool \<Rightarrow> world \<Rightarrow> photo list \<times> world" where
  "update_photo_isLiked i v w =
     (let ps = map (\<lambda>p. if photo_id p = i then p\<lparr>photo_isLiked := Some v\<rparr> else p) (photos w)
      in (filter (\<lambda>p. photo_id p = i) ps, w\<lparr>photos := ps\<rparr>))"

definition toggleLikePhoto :: "int \<Rightarrow> photo option throwing" where
  "toggleLikePhoto i w =
     (case getPhoto i w of
        (Inl e, w1) \<Rightarrow> (Inl e, w1)
      | (Inr None, w1) \<Rightarrow> (Inr None, w1)
      | (Inr (Some photo), w1) \<Rightarrow>
          (case db_stmt (update_photo_isLiked i (\<not> truthy (photo_isLiked photo))) w1 of
             (Inl e, w2) \<Rightarrow> (Inl e, w2)
           | (Inr result, w2) \<Rightarrow> (Inr (case result of [] \<Rightarrow> None | p # _ \<Rightarrow> Some p), w2)))"

text \<open>
  \<open>deletePhotoFromFirebaseStorage\<close>: the object name is the part of \<open>filePath\<close> after
  its last slash; every error is logged and swallowed.
\<close>

definition lastSegment :: "string \<Rightarrow> string" where
  "lastSegment s = rev (takeWhile (\<lambda>c. c \<noteq> CHR ''/'') (rev s))"

definition objectName :: "string \<Rightarrow> string" where
  "objectName filePath =
     ''uploads/'' @ (if CHR ''/'' \<in> set filePath then lastSegment filePath else filePath)"

definition deletePhotoFromFirebaseStorage :: "string \<Rightarrow> unit io" where
  "deletePhotoFromFirebaseStorage filePath =
     catchE (blob_delete (objectName filePath))
       (logged ''Error deleting photo from Firebase Storage:'' ())"

section \<open>TemporalStorageService (temporal-storage-service.ts)\<close>

text \<open>SQL comparisons with a null operand are not true.\<close>

definition sql_lt :: "timestamp option \<Rightarrow> timestamp \<Rightarrow> bool" where
  "sql_lt v t = (case v of None \<Rightarrow> False | Some x \<Rightarrow> x < t)"

definition expiredTemporaryPhoto :: "timestamp \<Rightarrow> photo \<Rightarrow> bool" where
  "expiredTemporaryPhoto now p \<longleftrightarrow> photo_isTemporary p = Some True \<and> sql_lt (photo_expiresAt p) now"

definition expiredTemporaryCollection :: "timestamp \<Rightarrow> collection \<Rightarrow> bool" where
  "expiredTemporaryCollection now c \<longleftrightarrow>
     collection_isTemporary c = Some True \<and> sql_lt (collection_expiresAt c) now"

definition sessionPhoto :: "string \<Rightarrow> photo \<Rightarrow> bool" where
  "sessionPhoto sid p \<longleftrightarrow> photo_isTemporary p = Some True \<and> photo_sessionId p = Some sid"

definition sessionCollection :: "string \<Rightarrow> collection \<Rightarrow> bool" where
  "sessionCollection sid c \<longleftrightarrow>
     collection_isTemporary c = Some True \<and> collection_sessionId c = Some sid"

text \<open>The loop over the selected photos, with its own try/catch around each deletion.\<close>

definition deleteBlobsOf :: "photo list \<Rightarrow> unit io" where
  "deleteBlobsOf ps =
     forEach ps (\<lambda>photo.
       catchE (lift (deletePhotoFromFirebaseStorage (photo_filePath photo)))
         (logged ''Failed to delete photo from Firebase Storage:'' ()))"

definition cleanExpiredTemporaryContent :: "timestamp \<Rightarrow> unit io" where
  "cleanExpiredTemporaryContent now =
     catchE
       (bindE (db_select (\<lambda>w. filter (expiredTemporaryPhoto now) (photos w))) (\<lambda>expiredPhotos.
        bindE (lift (deleteBlobsOf expiredPhotos)) (\<lambda>_.
        bindE (db_exec (remove_photos (expiredTemporaryPhoto now))) (\<lambda>_.
        db_exec (remove_collections (expiredTemporaryCollection now))))))
       (logged ''Error cleaning expired temporary content:'' ())"

definition set_collection_permanent :: "int \<Rightarrow> world \<Rightarrow> collection list \<times> world" where
  "set_collection_permanent i w =
     (let cs = map (\<lambda>c. if collection_id c = i
                     then c\<lparr>collection_isTemporary := Some False, collection_sessionId := None,
                            collection_expiresAt := None\<rparr>
                     else c) (collections w)
      in (filter (\<lambda>c. collection_id c = i) cs, w\<lparr>collections := cs\<rparr>))"

definition makeCollectionPermanent :: "int \<Rightarrow> bool io" where
  "makeCollectionPermanent collectionId =
     catchE
       (bindE (db_stmt (set_collection_permanent collectionId)) (\<lambda>result.
        returnE (length result > 0)))
       (logged ''Error making collection permanent:'' False)"

definition set_photo_permanent :: "int \<Rightarrow> world \<Rightarrow> photo list \<times> world" where
  "set_photo_permanent i w =
     (let ps = map (\<lambda>p. if photo_id p = i
                     then p\<lparr>photo_isTemporary := Some False, photo_sessionId := None,
                            photo_expiresAt := None\<rparr>
                     else p) (photos w)
      in (filter (\<lambda>p. photo_id p = i) ps, w\<lparr>photos := ps\<rparr>))"

definition makePhotoPermanent :: "int \<Rightarrow> bool io" where
  "makePhotoPermanent photoId =
     catchE
       (bindE (db_stmt (set_photo_permanent photoId)) (\<lambda>result.
        returnE (length result > 0)))
       (logged ''Error making photo permanent:'' False)"

definition getTemporaryContentBySession :: "string \<Rightarrow> (collection list \<times> photo list) io" where
  "getTemporaryContentBySession sid =
     catchE
       (bindE (db_select (\<lambda>w. filter (sessionCollection sid) (collections w))) (\<lambda>temporaryCollections.
        bindE (db_select (\<lambda>w. filter (sessionPhoto sid) (photos w))) (\<lambda>temporaryPhotos.
        returnE (temporaryCollections, temporaryPhotos))))
       (logged ''Error getting temporary content for session:'' ([], []))"

definition extend_collections :: "string \<Rightarrow> timestamp \<Rightarrow> world \<Rightarrow> world" where
  "extend_collections sid t w =
     w\<lparr>collections := map (\<lambda>c. if sessionCollection sid c
                              then c\<lparr>collection_expiresAt := Some t\<rparr> else c) (collections w)\<rparr>"

definition extend_photos :: "string \<Rightarrow> timestamp \<Rightarrow> world \<Rightarrow> world" where
  "extend_photos sid t w =
     w\<lparr>photos := map (\<lambda>p. if sessionPhoto sid p
                         then p\<lparr>photo_expiresAt := Some t\<rparr> else p) (photos w)\<rparr>"

definition extendTemporaryContentExpiration :: "string \<Rightarrow> timestamp \<Rightarrow> unit io" where
  "extendTemporaryContentExpiration sid newExpirationTime =
     catchE
       (bindE (db_exec (extend_collections sid newExpirationTime)) (\<lambda>_.
        db_exec (extend_photos sid newExpirationTime)))
       (logged ''Error extending temporary content expiration for session:'' ())"

definition deleteTemporaryContentForSession :: "string \<Rightarrow> unit io" where
  "deleteTemporaryContentForSession sid =
     catchE
       (bindE (db_select (\<lambda>w. filter (sessionPhoto sid) (photos w))) (\<lambda>sessionPhotos.
        bindE (lift (deleteBlobsOf sessionPhotos)) (\<lambda>_.
        bindE (db_exec (remove_photos (sessionPhoto sid))) (\<lambda>_.
        db_exec (remove_collections (sessionCollection sid))))))
       (logged ''Error deleting temporary content for session:'' ())"

section \<open>DemoCleanupService (demo-cleanup-service.ts)\<close>

definition DEMO_USERNAME :: string where
  "DEMO_USERNAME = ''demo''"

definition PROTECTED_COLLECTION_IDS :: "int list" where
  "PROTECTED_COLLECTION_IDS = [1, 2, 3, 4, 6]"

text \<open>
  \<open>collections INNER JOIN collection_owners ON collections.id = collection_owners.collectionId\<close>,
  restricted to one owner: one result row for each matching pair.
\<close>

definition ownedCollections :: "int \<Rightarrow> world \<Rightarrow> collection list" where
  "ownedCollections uid w =
     [c. c \<leftarrow> collections w, ow \<leftarrow> collectionOwners w,
         collection_id c = owner_collectionId ow \<and> owner_userId ow = uid]"

definition cleanupPhotosFromFirebaseStorage :: "int list \<Rightarrow> unit throwing" where
  "cleanupPhotosFromFirebaseStorage collectionIds =
     logRethrow ''Error cleaning up photos from Firebase Storage:''
       (bindE (db_select (\<lambda>w. filter (\<lambda>p. in_ids (photo_collectionId p) collectionIds) (photos w)))
          (\<lambda>photosToDelete. lift (deleteBlobsOf photosToDelete)))"

definition cleanupPhotosFromDatabase :: "int list \<Rightarrow> unit throwing" where
  "cleanupPhotosFromDatabase collectionIds =
     logRethrow ''Error cleaning up photos from database:''
       (db_exec (remove_photos (\<lambda>p. in_ids (photo_collectionId p) collectionIds)))"

definition cleanupCollectionOwnerships :: "int list \<Rightarrow> unit throwing" where
  "cleanupCollectionOwnerships collectionIds =
     logRethrow ''Error cleaning up collection ownerships:''
       (db_exec (remove_owners (\<lambda>ow. owner_collectionId ow \<in> set collectionIds)))"

definition cleanupCollectionsFromDatabase :: "int list \<Rightarrow> unit throwing" where
  "cleanupCollectionsFromDatabase collectionIds =
     logRethrow ''Error cleaning up collections from database:''
       (db_exec (remove_collections (\<lambda>c. collection_id c \<in> set collectionIds)))"

definition cleanupSteps :: "int list \<Rightarrow> unit throwing" where
  "cleanupSteps collectionIds =
     bindE (cleanupPhotosFromFirebaseStorage collectionIds) (\<lambda>_.
     bindE (cleanupPhotosFromDatabase collectionIds) (\<lambda>_.
     bindE (cleanupCollectionOwnerships collectionIds) (\<lambda>_.
     cleanupCollectionsFromDatabase collectionIds)))"

definition cleanupDemoCollectionsAndPhotos :: "int \<Rightarrow> unit throwing" where
  "cleanupDemoCollectionsAndPhotos demoUserId =
     logRethrow ''Error cleaning up demo collections and photos:''
       (bindE (db_select (\<lambda>w. filter (\<lambda>c. collection_id c \<notin> set PROTECTED_COLLECTION_IDS)
                                 (ownedCollections demoUserId w)))
          (\<lambda>demoCollections.
             if length demoCollections = 0 then returnE ()
             else cleanupSteps (map collection_id demoCollections)))"

definition cleanupDemoUserContent :: "unit io" where
  "cleanupDemoUserContent =
     catchE
       (bindE (db_select (\<lambda>w. take 1 (filter (\<lambda>u. user_username u = DEMO_USERNAME) (users w))))
          (\<lambda>demoUser.
             case demoUser of
               [] \<Rightarrow> returnE ()
             | u # _ \<Rightarrow> cleanupDemoCollectionsAndPhotos (user_id u)))
       (logged ''Error during demo user cleanup:'' ())"

text \<open>\<open>users INNER JOIN sessions ON users.id = sessions.userId WHERE sessions.id = sessionId\<close>.\<close>

definition sessionUsers :: "string \<Rightarrow> world \<Rightarrow> user list" where
  "sessionUsers sid w =
     [u. u \<leftarrow> users w, s \<leftarrow> sessions w, user_id u = session_userId s \<and> session_id s = sid]"

definition cleanupDemoUserContentForSession :: "string \<Rightarrow> unit io" where
  "cleanupDemoUserContentForSession sid =
     catchE
       (bindE (db_select (\<lambda>w. take 1 (sessionUsers sid w)))
          (\<lambda>sessionData.
             case sessionData of
               [] \<Rightarrow> returnE ()
             | u # _ \<Rightarrow>
                 if user_username u \<noteq> DEMO_USERNAME then returnE ()
                 else cleanupDemoCollectionsAndPhotos (user_id u)))
       (logged ''Error during session-aware demo cleanup for session:'' ())"

section \<open>DemoUserService, teardown (demo-user-service.ts)\<close>

definition DEMO_USER_PREFIX :: string where
  "DEMO_USER_PREFIX = ''demo_''"

definition SESSION_DURATION :: int where
  "SESSION_DURATION = 10 * 60 * 1000"

definition isTemporaryDemoUser :: "string \<Rightarrow> bool" where
  "isTemporaryDemoUser username \<longleftrightarrow>
     take (length DEMO_USER_PREFIX) username = DEMO_USER_PREFIX"

definition cleanupUserCollectionsAndPhotos :: "int \<Rightarrow> unit io" where
  "cleanupUserCollectionsAndPhotos uid =
     catchE
       (bindE (db_select (ownedCollections uid)) (\<lambda>userCollections.
        let nonProtectedCollections =
              filter (\<lambda>c. collection_id c \<notin> set PROTECTED_COLLECTION_IDS) userCollections
        in if length nonProtectedCollections > 0
           then cleanupSteps (map collection_id nonProtectedCollections)
           else returnE ()))
       (logged ''Error cleaning up collections for user:'' ())"

definition removeProtectedCollectionOwnerships :: "int \<Rightarrow> unit io" where
  "removeProtectedCollectionOwnerships uid =
     catchE
       (bindE (db_exec (remove_owners (\<lambda>ow. owner_userId ow = uid
                           \<and> owner_collectionId ow = hd PROTECTED_COLLECTION_IDS))) (\<lambda>_.
        lift (forEach PROTECTED_COLLECTION_IDS (\<lambda>collectionId.
          catchE (db_exec (remove_owners (\<lambda>ow. owner_userId ow = uid
                              \<and> owner_collectionId ow = collectionId)))
            (logged ''Error removing ownership of collection:'' ())))))
       (logged ''Error removing protected collection ownerships for user:'' ())"

text \<open>\<open>if (sessionId)\<close>: an absent or empty session id is falsy.\<close>

definition truthyString :: "string option \<Rightarrow> bool" where
  "truthyString v = (case v of None \<Rightarrow> False | Some s \<Rightarrow> s \<noteq> [])"

definition cleanupTemporaryDemoUser :: "int \<Rightarrow> string option \<Rightarrow> unit io" where
  "cleanupTemporaryDemoUser uid sessionId =
     catchE
       (bindE (db_select (\<lambda>w. take 1 (filter (\<lambda>u. user_id u = uid) (users w)))) (\<lambda>user.
        bindE (lift (cleanupUserCollectionsAndPhotos uid)) (\<lambda>_.
        bindE (lift (removeProtectedCollectionOwnerships uid)) (\<lambda>_.
        bindE (if truthyString sessionId
               then lift (catchE (db_exec (remove_sessions (\<lambda>s. Some (session_id s) = sessionId)))
                            (logged ''Error deleting session:'' ()))
               else returnE ()) (\<lambda>_.
        db_exec (remove_users (\<lambda>u. user_id u = uid)))))))
       (logged ''Error during cleanup for demo user:'' ())"

section \<open>DatabaseSessionStore (databaseSessionStore.ts)\<close>

record sessionData =
  sd_userId :: int
  sd_username :: string
  sd_expiresAt :: timestamp

text \<open>\<open>insert(sessions).values(...).onConflictDoUpdate({ target: sessions.id, set: ... })\<close>.\<close>

definition upsert_session :: "string \<Rightarrow> sessionData \<Rightarrow> world \<Rightarrow> world" where
  "upsert_session sid sd w =
     (if sid \<in> session_id ` set (sessions w)
      then w\<lparr>sessions := map (\<lambda>s. if session_id s = sid
                  then s\<lparr>session_userId := sd_userId sd, session_username := sd_username sd,
                         session_expiresAt := sd_expiresAt sd\<rparr>
                  else s) (sessions w)\<rparr>
      else w\<lparr>sessions := sessions w @
             [\<lparr>session_id = sid, session_userId = sd_userId sd,
               session_username = sd_username sd, session_expiresAt = sd_expiresAt sd\<rparr>]\<rparr>)"

definition store_set :: "string \<Rightarrow> sessionData \<Rightarrow> unit throwing" where
  "store_set sid sd = logRethrow ''Error setting session:'' (db_exec (upsert_session sid sd))"

text \<open>
  \<open>delete\<close>. The final statement has no \<open>.returning()\<close>: its result carries no
  rows, and \<open>result.length > 0\<close> is computed on that.
\<close>

definition store_delete :: "string \<Rightarrow> bool io" where
  "store_delete sid =
     catchE
       (bindE (db_select (\<lambda>w. take 1 (filter (\<lambda>s. session_id s = sid) (sessions w)))) (\<lambda>rows.
        let deleteRow =
              bindE (db_stmt (\<lambda>w. ([] :: session list, remove_sessions (\<lambda>s. session_id s = sid) w)))
                (\<lambda>result. returnE (length result > 0))
        in case rows of
             [] \<Rightarrow> deleteRow
           | s # _ \<Rightarrow>
               if isTemporaryDemoUser (session_username s)
               then bindE (lift (cleanupTemporaryDemoUser (session_userId s) (Some sid))) (\<lambda>_.
                    returnE True)
               else bindE (lift (cleanupDemoUserContentForSession sid)) (\<lambda>_. deleteRow)))
       (logged ''Error deleting session:'' False)"

definition store_get :: "string \<Rightarrow> timestamp \<Rightarrow> sessionData option io" where
  "store_get sid now =
     catchE
       (bindE (db_select (\<lambda>w. take 1 (filter (\<lambda>s. session_id s = sid) (sessions w)))) (\<lambda>result.
        case result of
          [] \<Rightarrow> returnE None
        | s # _ \<Rightarrow>
            if session_expiresAt s < now
            then bindE (lift (store_delete sid)) (\<lambda>_. returnE None)
            else returnE (Some \<lparr>sd_userId = session_userId s, sd_username = session_username s,
                                 sd_expiresAt = session_expiresAt s\<rparr>)))
       (logged ''Error getting session:'' None)"

definition store_cleanExpiredSessions :: "timestamp \<Rightarrow> unit io" where
  "store_cleanExpiredSessions now =
     catchE (db_exec (remove_sessions (\<lambda>s. session_expiresAt s < now)))
       (logged ''Error cleaning expired sessions:'' ())"

section \<open>AuthService and AuthController (controllers/auth.ts)\<close>

text \<open>
  One request is served at one clock reading \<open>now\<close> (every \<open>Date.now()\<close> and
  \<open>new Date()\<close> of a call reads the same value). The result of
  \<open>generateSessionId()\<close> is the parameter \<open>newSid\<close>.
\<close>

definition SESSION_REFRESH_THRESHOLD :: int where
  "SESSION_REFRESH_THRESHOLD = 2 * 60 * 1000"

definition createSession :: "int \<Rightarrow> string \<Rightarrow> string \<Rightarrow> timestamp \<Rightarrow> string throwing" where
  "createSession uid username newSid now =
     bindE (store_set newSid \<lparr>sd_userId = uid, sd_username = username,
                               sd_expiresAt = now + SESSION_DURATION\<rparr>) (\<lambda>_.
     returnE newSid)"

definition getSession :: "string \<Rightarrow> timestamp \<Rightarrow> sessionData option throwing" where
  "getSession sid now =
     bindE (lift (store_get sid now)) (\<lambda>found.
     case found of
       None \<Rightarrow> returnE None
     | Some session \<Rightarrow>
         (let timeUntilExpiry = sd_expiresAt session - now
          in if timeUntilExpiry < SESSION_REFRESH_THRESHOLD
             then (let session' = session\<lparr>sd_expiresAt := now + SESSION_DURATION\<rparr>
                   in bindE (store_set sid session') (\<lambda>_. returnE (Some session')))
             else returnE (Some session)))"

definition deleteSession :: "string \<Rightarrow> unit io" where
  "deleteSession sid w = ((), snd (store_delete sid w))"

definition cleanExpiredSessions :: "timestamp \<Rightarrow> unit io" where
  "cleanExpiredSessions now w =
     store_cleanExpiredSessions now (snd (cleanExpiredTemporaryContent now w))"

definition logout :: "string \<Rightarrow> unit io" where
  "logout sid w = deleteSession sid (snd (deleteTemporaryContentForSession sid w))"

record reqUser =
  ru_id :: int
  ru_username :: string

record request =
  req_sessionId :: "string option"
  req_user :: "reqUser option"

datatype refreshResponse =
    Refreshed string timestamp
  | Status401
  | Status500

definition refreshSession :: "request \<Rightarrow> string \<Rightarrow> timestamp \<Rightarrow> refreshResponse io" where
  "refreshSession req newSid now =
     catchE
       (case (req_sessionId req, req_user req) of
          (Some sid, Some user) \<Rightarrow>
            if sid = [] then returnE Status401
            else
              (let newExpirationTime = now + 10 * 60 * 1000
               in bindE (lift (extendTemporaryContentExpiration sid newExpirationTime)) (\<lambda>_.
                  bindE (lift (deleteSession sid)) (\<lambda>_.
                  bindE (createSession (ru_id user) (ru_username user) newSid now) (\<lambda>newSessionId.
                  returnE (Refreshed newSessionId (now + 10 * 60 * 1000))))))
        | _ \<Rightarrow> returnE Status401)
       (logged ''Session refresh error:'' Status500)"

section \<open>DemoUserService, creation and sweep (demo-user-service.ts)\<close>

fun decimal :: "nat \<Rightarrow> string" where
  "decimal n = (if n < 10 then [''0123456789'' ! n]
                else decimal (n div 10) @ [''0123456789'' ! (n mod 10)])"

text \<open>\<open>`demo_${Date.now()}_${random}`\<close>, \<open>random\<close> being the six random characters.\<close>

declare decimal.simps [simp del]

definition generateDemoUsername :: "timestamp \<Rightarrow> string \<Rightarrow> string" where
  "generateDemoUsername now random = DEMO_USER_PREFIX @ decimal (nat now) @ ''_'' @ random"

definition insert_user :: "string \<Rightarrow> string \<Rightarrow> world \<Rightarrow> user \<times> world" where
  "insert_user username displayName w =
     (let u = \<lparr>user_id = userSeq w, user_username = username, user_displayName = displayName\<rparr>
      in (u, w\<lparr>users := users w @ [u], userSeq := userSeq w + 1\<rparr>))"

definition insert_owner :: "int \<Rightarrow> int \<Rightarrow> world \<Rightarrow> world" where
  "insert_owner cid uid w =
     w\<lparr>collectionOwners := collectionOwners w @ [\<lparr>owner_collectionId = cid, owner_userId = uid\<rparr>]\<rparr>"

text \<open>
  The callbacks of \<open>PROTECTED_COLLECTION_IDS.map(async ...)\<close> are run one after the
  other, in the order of the list.
\<close>

definition grantAccessToProtectedCollections :: "int \<Rightarrow> unit io" where
  "grantAccessToProtectedCollections uid =
     catchE
       (bindE (db_select (\<lambda>w. filter (\<lambda>c. collection_id c = hd PROTECTED_COLLECTION_IDS)
                                 (collections w))) (\<lambda>existingCollections.
        if length existingCollections = 0 then returnE ()
        else lift (forEach PROTECTED_COLLECTION_IDS (\<lambda>collectionId.
          catchE
            (bindE (db_select (\<lambda>w. take 1 (filter (\<lambda>c. collection_id c = collectionId)
                                               (collections w)))) (\<lambda>collectionExists.
             if length collectionExists > 0
             then bindE (db_select (\<lambda>w. take 1 (filter (\<lambda>ow. owner_collectionId ow = collectionId
                                                     \<and> owner_userId ow = uid) (collectionOwners w))))
                    (\<lambda>existingOwnership.
                       if length existingOwnership = 0
                       then db_exec (insert_owner collectionId uid)
                       else returnE ())
             else returnE ()))
            (logged ''Error granting access to collection:'' ())))))
       (logged ''Error granting access to protected collections:'' ())"

text \<open>
  \<open>createTemporaryDemoUser\<close>. The \<open>setTimeout\<close> callback registered at the end runs
  \<open>cleanupTemporaryDemoUser\<close> after \<open>SESSION_DURATION\<close>, outside this call.
\<close>

definition createTemporaryDemoUser ::
    "string \<Rightarrow> string \<Rightarrow> timestamp \<Rightarrow> (user \<times> string) throwing" where
  "createTemporaryDemoUser random newSid now =
     logRethrow ''Error creating temporary demo user:''
       (let username = generateDemoUsername now random;
            displayName = ''Demo User '' @ drop (length username - 8) username
        in bindE (db_stmt (insert_user username displayName)) (\<lambda>user.
           bindE (lift (grantAccessToProtectedCollections (user_id user))) (\<lambda>_.
           bindE (createSession (user_id user) (user_username user) newSid now) (\<lambda>sessionId.
           returnE (user, sessionId)))))"

definition cleanupExpiredDemoUsers :: "timestamp \<Rightarrow> unit io" where
  "cleanupExpiredDemoUsers now =
     catchE
       (bindE (db_select users) (\<lambda>tempUsers.
        let demoUsers = filter (\<lambda>u. isTemporaryDemoUser (user_username u)) tempUsers
        in lift (forEach demoUsers (\<lambda>user.
             catchE
               (bindE (db_select (\<lambda>w. filter (\<lambda>s. session_userId s = user_id user
                                                \<and> session_expiresAt s = now) (sessions w)))
                  (\<lambda>activeSessions.
                     if length activeSessions = 0
                     then lift (cleanupTemporaryDemoUser (user_id user) None)
                     else returnE ()))
               (logged ''Error checking sessions for user:'' ())))))
       (logged ''Error during expired demo users cleanup:'' ())"

section \<open>Collection creation (collection-model.ts, photo-model.ts, types.ts, routes/collections.ts)\<close>

definition raise :: "error \<Rightarrow> 'a throwing" where
  "raise e w = (Inl e, w)"

text \<open>\<open>for (...) { await body(x) }\<close> with a body that may raise: the first raise ends the loop.\<close>

fun forEachE :: "'a list \<Rightarrow> ('a \<Rightarrow> unit throwing) \<Rightarrow> unit throwing" where
  "forEachE [] body w = (Inr (), w)"
| "forEachE (x # xs) body w =
     (case body x w of (Inl e, w1) \<Rightarrow> (Inl e, w1) | (Inr _, w1) \<Rightarrow> forEachE xs body w1)"

text \<open>
  \<open>withDatabaseRetry(operation, maxRetries = 3)\<close>; the first argument of \<open>attempts\<close>
  counts the attempts that are left, so \<open>attempt < maxRetries\<close> is \<open>0 < n\<close> below.
\<close>

definition isConnectionError :: "error \<Rightarrow> bool" where
  "isConnectionError e \<longleftrightarrow> e = DbError ETIMEDOUT \<or> e = DbError ECONNRESET"

primrec attempts :: "nat \<Rightarrow> 'a throwing \<Rightarrow> 'a throwing" where
  "attempts 0 operation w = (Inl (Thrown ''undefined''), w)"
| "attempts (Suc n) operation w =
     (case operation w of
        (Inr x, w1) \<Rightarrow> (Inr x, w1)
      | (Inl e, w1) \<Rightarrow>
          (let w2 = console_error ''Database operation failed'' w1
           in if isConnectionError e \<and> 0 < n then attempts n operation w2 else (Inl e, w2)))"

definition withDatabaseRetry :: "'a throwing \<Rightarrow> 'a throwing" where
  "withDatabaseRetry operation = attempts 3 operation"

record insertCollection =
  ic_name :: string
  ic_type :: collection_type
  ic_userId :: "int option"
  ic_isTemporary :: "bool option"
  ic_sessionId :: "string option"
  ic_expiresAt :: "timestamp option"

text \<open>An omitted \<open>isTemporary\<close> (\<open>None\<close>) takes the column default \<open>false\<close>.\<close>

definition insert_collection :: "insertCollection \<Rightarrow> world \<Rightarrow> collection \<times> world" where
  "insert_collection ic w =
     (let c = \<lparr>collection_id = collectionSeq w, collection_name = ic_name ic,
                collection_type = ic_type ic, collection_userId = ic_userId ic,
                collection_isTemporary =
                  Some (case ic_isTemporary ic of None \<Rightarrow> False | Some b \<Rightarrow> b),
                collection_sessionId = ic_sessionId ic, collection_expiresAt = ic_expiresAt ic\<rparr>
      in (c, w\<lparr>collections := collections w @ [c], collectionSeq := collectionSeq w + 1\<rparr>))"

definition getUserPartner :: "int \<Rightarrow> user option throwing" where
  "getUserPartner uid =
     bindE (db_select (\<lambda>w. take 1 (filter (\<lambda>pt. partnership_user1Id pt = uid
                                          \<or> partnership_user2Id pt = uid) (partnerships w))))
       (\<lambda>partnership.
          case partnership of
            [] \<Rightarrow> returnE None
          | pt # _ \<Rightarrow>
              (let partnerId = (if partnership_user1Id pt = uid then partnership_user2Id pt
                                else partnership_user1Id pt)
               in bindE (db_select (\<lambda>w. take 1 (filter (\<lambda>u. user_id u = partnerId) (users w))))
                    (\<lambda>partner. returnE (case partner of [] \<Rightarrow> None | u # _ \<Rightarrow> Some u))))"

text \<open>\<open>createCollection\<close>. A missing \<open>userId\<close> makes the insert into
  \<open>collection_owners\<close> (whose \<open>userId\<close> is \<open>notNull\<close>) raise.\<close>

definition createCollection :: "insertCollection \<Rightarrow> collection throwing" where
  "createCollection ic =
     bindE (db_stmt (insert_collection ic)) (\<lambda>collection.
     case ic_userId ic of
       None \<Rightarrow> raise (DbError OtherDbError)
     | Some uid \<Rightarrow>
         bindE (db_exec (insert_owner (collection_id collection) uid)) (\<lambda>_.
         bindE (getUserPartner uid) (\<lambda>partner.
         bindE (case partner of
                  None \<Rightarrow> returnE ()
                | Some p \<Rightarrow> db_exec (insert_owner (collection_id collection) (user_id p))) (\<lambda>_.
         returnE collection))))"

record insertPhoto =
  ip_title :: string
  ip_fileName :: string
  ip_fileType :: string
  ip_filePath :: string
  ip_isLiked :: "bool option"
  ip_collectionId :: "int option"
  ip_isTemporary :: "bool option"
  ip_sessionId :: "string option"
  ip_expiresAt :: "timestamp option"

definition insert_photo :: "insertPhoto \<Rightarrow> world \<Rightarrow> photo \<times> world" where
  "insert_photo ip w =
     (let p = \<lparr>photo_id = photoSeq w, photo_title = ip_title ip, photo_fileName = ip_fileName ip,
                photo_fileType = ip_fileType ip, photo_filePath = ip_filePath ip,
                photo_isLiked = Some (truthy (ip_isLiked ip)),
                photo_collectionId = ip_collectionId ip,
                photo_isTemporary =
                  Some (case ip_isTemporary ip of None \<Rightarrow> False | Some b \<Rightarrow> b),
                photo_sessionId = ip_sessionId ip, photo_expiresAt = ip_expiresAt ip\<rparr>
      in (p, w\<lparr>photos := photos w @ [p], photoSeq := photoSeq w + 1\<rparr>))"

definition createPhoto :: "insertPhoto \<Rightarrow> photo throwing" where
  "createPhoto ip = db_stmt (insert_photo ip)"

definition savePhotoToFirebaseStorage :: "string \<Rightarrow> string throwing" where
  "savePhotoToFirebaseStorage fileName w =
     (case blob_save (''uploads/'' @ fileName) w of
        (Inl e, w1) \<Rightarrow> (Inl (Thrown ''Failed to save photo to Firebase Storage''),
                         console_error ''Error saving photo to Firebase Storage:'' w1)
      | (Inr _, w1) \<Rightarrow> (Inr fileName, w1))"

text \<open>
  The handler of \<open>POST /api/collections\<close>, behind \<open>requireAuth\<close>. A form field is
  absent, a string or a boolean; \<open>file_generatedName\<close> is what
  \<open>generateFileName(file.originalname)\<close> returns for the file, \<open>file_title\<close> its entry
  in \<open>photoTitle\<close>.
\<close>

datatype jsValue = JsUndefined | JsString string | JsBool bool

record uploadedFile =
  file_originalname :: string
  file_mimetype :: string
  file_generatedName :: string
  file_title :: "string option"

record collectionForm =
  form_name :: "string option"
  form_type :: "string option"
  form_isTemporary :: jsValue
  form_files :: "uploadedFile list"

datatype createResponse = Status201 collection | Status400 | Status401 | Status503

definition orDefault :: "string option \<Rightarrow> string \<Rightarrow> string" where
  "orDefault v d = (if truthyString v then (case v of Some s \<Rightarrow> s | None \<Rightarrow> d) else d)"

definition parseCollectionType :: "string \<Rightarrow> collection_type option" where
  "parseCollectionType t =
     (if t = ''nature'' then Some Nature
      else if t = ''travels'' then Some Travels
      else if t = ''favorites'' then Some Favorites
      else if t = ''custom'' then Some Custom
      else None)"

text \<open>\<open>validateSchema(insertCollectionSchema, ...)\<close>: a value outside the enum is rejected.\<close>

definition validateCollection ::
    "string \<Rightarrow> string \<Rightarrow> int \<Rightarrow> bool \<Rightarrow> string option \<Rightarrow> timestamp option
      \<Rightarrow> insertCollection throwing" where
  "validateCollection name type uid makeTemporary sessionId expiresAt =
     (case parseCollectionType type of
        None \<Rightarrow> raise (Thrown ''Validation error'')
      | Some ty \<Rightarrow>
          returnE \<lparr>ic_name = name, ic_type = ty, ic_userId = Some uid,
                   ic_isTemporary = Some makeTemporary, ic_sessionId = sessionId,
                   ic_expiresAt = expiresAt\<rparr>)"

definition uploadPhotos ::
    "uploadedFile list \<Rightarrow> collection \<Rightarrow> bool \<Rightarrow> string option \<Rightarrow> timestamp option
      \<Rightarrow> unit throwing" where
  "uploadPhotos files collection makeTemporary sessionId expiresAt =
     forEachE files (\<lambda>file.
       bindE (savePhotoToFirebaseStorage (file_generatedName file)) (\<lambda>filePath.
       bindE (withDatabaseRetry (createPhoto
                \<lparr>ip_title = orDefault (file_title file) (file_originalname file),
                 ip_fileName = file_generatedName file, ip_fileType = file_mimetype file,
                 ip_filePath = filePath, ip_isLiked = Some False,
                 ip_collectionId = Some (collection_id collection),
                 ip_isTemporary = Some makeTemporary, ip_sessionId = sessionId,
                 ip_expiresAt = expiresAt\<rparr>)) (\<lambda>_.
       returnE ())))"

definition createFailed :: "error \<Rightarrow> createResponse io" where
  "createFailed e w =
     (if e = DbError ETIMEDOUT \<or> e = DbError ECONNRESET then Status503 else Status400,
      console_error ''Error creating collection:'' w)"

definition createCollectionRoute ::
    "request \<Rightarrow> collectionForm \<Rightarrow> timestamp \<Rightarrow> createResponse io" where
  "createCollectionRoute req form now =
     catchE
       (case req_user req of
          None \<Rightarrow> returnE Status401
        | Some user \<Rightarrow>
            if \<not> truthyString (form_name form) then returnE Status400
            else
              (let makeTemporary = (form_isTemporary form = JsString ''true''
                                     \<or> form_isTemporary form = JsBool True);
                   sessionId = (if makeTemporary then req_sessionId req else None);
                   expiresAt = (if makeTemporary \<and> truthyString sessionId
                                then Some (now + 10 * 60 * 1000) else None)
               in bindE (validateCollection (orDefault (form_name form) [])
                           (orDefault (form_type form) ''custom'') (ru_id user)
                           makeTemporary sessionId expiresAt) (\<lambda>data.
                  bindE (withDatabaseRetry (createCollection data)) (\<lambda>collection.
                  bindE (uploadPhotos (form_files form) collection makeTemporary
                           sessionId expiresAt) (\<lambda>_.
                  returnE (Status201 collection))))))
       createFailed"

text \<open>
  The temporal-flag invariant of a row: a temporary row carries a session id and an
  expiry, a permanent row carries neither.
\<close>

definition temporalFlagOK :: "bool option \<Rightarrow> string option \<Rightarrow> timestamp option \<Rightarrow> bool" where
  "temporalFlagOK isTemporary sessionId expiresAt \<longleftrightarrow>
     (isTemporary = Some True \<longrightarrow> sessionId \<noteq> None \<and> expiresAt \<noteq> None)
     \<and> (isTemporary = Some False \<longrightarrow> sessionId = None \<and> expiresAt = None)"

definition collectionFlagOK :: "collection \<Rightarrow> bool" where
  "collectionFlagOK c =
     temporalFlagOK (collection_isTemporary c) (collection_sessionId c) (collection_expiresAt c)"

definition photoFlagOK :: "photo \<Rightarrow> bool" where
  "photoFlagOK p = temporalFlagOK (photo_isTemporary p) (photo_sessionId p) (photo_expiresAt p)"

section \<open>Relations between the world before and after a call\<close>

text \<open>
  \<open>frame R\<close>: the relation \<open>R\<close> is a preorder that does not look at the fault
  schedules, the blob store or the trace. \<open>keeps R m\<close>: every run of \<open>m\<close> relates the
  world it starts in to the world it ends in; \<open>step R f\<close> is the same for the effect
  of a statement.
\<close>

definition frame :: "(world \<Rightarrow> world \<Rightarrow> bool) \<Rightarrow> bool" where
  "frame R \<longleftrightarrow>
     (\<forall>w. R w w) \<and> (\<forall>a b c. R a b \<longrightarrow> R b c \<longrightarrow> R a c)
     \<and> (\<forall>w x fs. dbFaults w = x # fs \<longrightarrow> R w (w\<lparr>dbFaults := fs\<rparr>))
     \<and> (\<forall>w x fs. blobFaults w = x # fs \<longrightarrow> R w (w\<lparr>blobFaults := fs\<rparr>))
     \<and> (\<forall>w evs. R w (w\<lparr>trace := trace w @ evs\<rparr>))
     \<and> (\<forall>w bs. R w (w\<lparr>blobs := bs\<rparr>))"

definition keeps :: "(world \<Rightarrow> world \<Rightarrow> bool) \<Rightarrow> (world \<Rightarrow> 'a \<times> world) \<Rightarrow> bool" where
  "keeps R m \<longleftrightarrow> (\<forall>w. R w (snd (m w)))"

definition step :: "(world \<Rightarrow> world \<Rightarrow> bool) \<Rightarrow> (world \<Rightarrow> world) \<Rightarrow> bool" where
  "step R f \<longleftrightarrow> (\<forall>w. R w (f w))"

text \<open>Protected collections and the ownership rows of protected collections stay.\<close>

definition protectedKept :: "world \<Rightarrow> world \<Rightarrow> bool" where
  "protectedKept w w' \<longleftrightarrow>
     (\<forall>c \<in> set (collections w).
        collection_id c \<in> set PROTECTED_COLLECTION_IDS \<longrightarrow> c \<in> set (collections w'))
     \<and> (\<forall>ow \<in> set (collectionOwners w).
        owner_collectionId ow \<in> set PROTECTED_COLLECTION_IDS \<longrightarrow> ow \<in> set (collectionOwners w'))"

text \<open>Every collection and photo row is an old row or satisfies the flag invariant.\<close>

definition flagsKept :: "world \<Rightarrow> world \<Rightarrow> bool" where
  "flagsKept w w' \<longleftrightarrow>
     (\<forall>c \<in> set (collections w'). c \<in> set (collections w) \<or> collectionFlagOK c)
     \<and> (\<forall>p \<in> set (photos w'). p \<in> set (photos w) \<or> photoFlagOK p)"

text \<open>
  Reading the trace: the events a call appended, the same without the calls of
  \<open>console.error\<close>, and the deletions requested from the blob store for a list of photos.
\<close>

definition newEvents :: "world \<Rightarrow> world \<Rightarrow> event list" where
  "newEvents w w' = drop (length (trace w)) (trace w')"

fun isConsoleError :: "event \<Rightarrow> bool" where
  "isConsoleError (ConsoleError _) = True"
| "isConsoleError _ = False"

definition effectsOf :: "event list \<Rightarrow> event list" where
  "effectsOf evs = filter (\<lambda>e. \<not> isConsoleError e) evs"

definition blobAttempts :: "photo list \<Rightarrow> event list" where
  "blobAttempts ps = map (\<lambda>p. BlobDeleteAttempt (objectName (photo_filePath p))) ps"

text \<open>
  \<open>orderedCleanup P w w'\<close>: what a cleanup of the photos selected by \<open>P\<close> leaves in
  the trace. The call only appends events; without the logged errors they are an
  initial part of: a blob deletion for each selected photo, in order, then the removal
  of exactly the selected rows. So wherever photo rows are removed, the blob deletion
  of every selected photo has been requested before. And when no database statement
  raises, whatever the blob store does, the whole sequence is there and the selected
  rows are gone.
\<close>

definition isPrefixOf :: "'a list \<Rightarrow> 'a list \<Rightarrow> bool" where
  "isPrefixOf xs ys \<longleftrightarrow> take (length xs) ys = xs"

fun isPhotoRowsDeleted :: "event \<Rightarrow> bool" where
  "isPhotoRowsDeleted (PhotoRowsDeleted _) = True"
| "isPhotoRowsDeleted _ = False"

definition orderedCleanup :: "(photo \<Rightarrow> bool) \<Rightarrow> world \<Rightarrow> world \<Rightarrow> bool" where
  "orderedCleanup P w w' \<longleftrightarrow>
     (let ps = filter P (photos w);
          full = blobAttempts ps @ [PhotoRowsDeleted (map photo_id ps)];
          evs = newEvents w w'
      in trace w' = trace w @ evs
         \<and> isPrefixOf (effectsOf evs) full
         \<and> (\<forall>p \<in> set ps. \<forall>i < length evs. isPhotoRowsDeleted (evs ! i) \<longrightarrow>
               BlobDeleteAttempt (objectName (photo_filePath p)) \<in> set (take i evs))
         \<and> (dbFaults w = [] \<longrightarrow>
               effectsOf evs = full \<and> photos w' = filter (\<lambda>p. \<not> P p) (photos w)))"


section \<open>Example worlds\<close>

definition emptyWorld :: world where
  "emptyWorld = \<lparr>users = [], sessions = [], collections = [], collectionOwners = [],
     photos = [], partnerships = [], userSeq = 100, collectionSeq = 100, photoSeq = 100,
     blobs = [], dbFaults = [], blobFaults = [], trace = []\<rparr>"

definition photoA :: photo where
  "photoA = \<lparr>photo_id = 5, photo_title = ''tree'', photo_fileName = ''a.png'',
     photo_fileType = ''image/png'', photo_filePath = ''a.png'', photo_isLiked = Some False,
     photo_collectionId = Some 1, photo_isTemporary = Some False, photo_sessionId = None,
     photo_expiresAt = None\<rparr>"

text \<open>A row whose \<open>is_liked\<close> column is null, as \<open>PUT /photos/:id\<close> with
  \<open>{isLiked: null}\<close> leaves it (the column is nullable and the update schema accepts null).\<close>

definition photoNull :: photo where
  "photoNull = photoA\<lparr>photo_id := 6, photo_isLiked := None\<rparr>"

definition worldA :: world where
  "worldA = emptyWorld\<lparr>photos := [photoA]\<rparr>"

definition worldNull :: world where
  "worldNull = emptyWorld\<lparr>photos := [photoNull]\<rparr>"

text \<open>An ephemeral demo account whose only session is valid for five more minutes.\<close>

definition demoAccount :: user where
  "demoAccount = \<lparr>user_id = 42, user_username = ''demo_1700000000000_abc123'',
     user_displayName = ''Demo User 0_abc123''\<rparr>"

definition demoAccountSession :: session where
  "demoAccountSession = \<lparr>session_id = ''s1'', session_userId = 42,
     session_username = ''demo_1700000000000_abc123'', session_expiresAt = 1700000600000\<rparr>"

definition worldEphemeral :: world where
  "worldEphemeral = emptyWorld\<lparr>users := [demoAccount], sessions := [demoAccountSession]\<rparr>"

text \<open>A database where protected collection 2 exists and protected collection 1 does not.\<close>

definition sharedAlbum :: collection where
  "sharedAlbum = \<lparr>collection_id = 2, collection_name = ''Travels'', collection_type = Travels,
     collection_userId = None, collection_isTemporary = Some False,
     collection_sessionId = None, collection_expiresAt = None\<rparr>"

definition worldAlbum2 :: world where
  "worldAlbum2 = emptyWorld\<lparr>collections := [sharedAlbum]\<rparr>"

text \<open>A regular account with one session, one temporary collection and one temporary
  photo tied to that session.\<close>

definition alice :: user where
  "alice = \<lparr>user_id = 7, user_username = ''alice'', user_displayName = ''Alice''\<rparr>"

definition aliceSession :: session where
  "aliceSession = \<lparr>session_id = ''s1'', session_userId = 7, session_username = ''alice'',
     session_expiresAt = 1700000060000\<rparr>"

definition tempAlbum :: collection where
  "tempAlbum = \<lparr>collection_id = 10, collection_name = ''Picnic'', collection_type = Custom,
     collection_userId = Some 7, collection_isTemporary = Some True,
     collection_sessionId = Some ''s1'', collection_expiresAt = Some 1700000060000\<rparr>"

definition tempPhoto :: photo where
  "tempPhoto = \<lparr>photo_id = 20, photo_title = ''basket'', photo_fileName = ''p.png'',
     photo_fileType = ''image/png'', photo_filePath = ''p.png'', photo_isLiked = Some False,
     photo_collectionId = Some 10, photo_isTemporary = Some True, photo_sessionId = Some ''s1'',
     photo_expiresAt = Some 1700000060000\<rparr>"

definition worldAlice :: world where
  "worldAlice = emptyWorld\<lparr>users := [alice], sessions := [aliceSession],
     collections := [tempAlbum],
     collectionOwners := [\<lparr>owner_collectionId = 10, owner_userId = 7\<rparr>],
     photos := [tempPhoto], blobs := [''uploads/p.png'']\<rparr>"

definition aliceRequest :: request where
  "aliceRequest = \<lparr>req_sessionId = Some ''s1'',
     req_user = Some \<lparr>ru_id = 7, ru_username = ''alice''\<rparr>\<rparr>"

definition aliceData :: sessionData where
  "aliceData = \<lparr>sd_userId = 7, sd_username = ''alice'', sd_expiresAt = 1700000600000\<rparr>"

text \<open>The same database when the next statement raises, and when the second one does.\<close>

definition worldAliceDown :: world where
  "worldAliceDown = worldAlice\<lparr>dbFaults := [Some ECONNRESET]\<rparr>"

definition worldAliceDownLater :: world where
  "worldAliceDownLater = worldAlice\<lparr>dbFaults := [None, Some ECONNRESET]\<rparr>"

text \<open>The permanent demo account with a protected and a non-protected collection.\<close>

definition demoUser :: user where
  "demoUser = \<lparr>user_id = 1, user_username = ''demo'', user_displayName = ''Demo User''\<rparr>"

definition demoSession :: session where
  "demoSession = \<lparr>session_id = ''d1'', session_userId = 1, session_username = ''demo'',
     session_expiresAt = 1700000600000\<rparr>"

definition protectedAlbum :: collection where
  "protectedAlbum = \<lparr>collection_id = 1, collection_name = ''Nature'', collection_type = Nature,
     collection_userId = Some 1, collection_isTemporary = Some False,
     collection_sessionId = None, collection_expiresAt = None\<rparr>"

definition scratchAlbum :: collection where
  "scratchAlbum = \<lparr>collection_id = 10, collection_name = ''Scratch'', collection_type = Custom,
     collection_userId = Some 1, collection_isTemporary = Some False,
     collection_sessionId = None, collection_expiresAt = None\<rparr>"

definition scratchPhoto :: photo where
  "scratchPhoto = \<lparr>photo_id = 30, photo_title = ''leaf'', photo_fileName = ''q.png'',
     photo_fileType = ''image/png'', photo_filePath = ''q.png'', photo_isLiked = Some False,
     photo_collectionId = Some 10, photo_isTemporary = Some False, photo_sessionId = None,
     photo_expiresAt = None\<rparr>"

definition worldDemo :: world where
  "worldDemo = emptyWorld\<lparr>users := [demoUser], sessions := [demoSession],
     collections := [protectedAlbum, scratchAlbum],
     collectionOwners := [\<lparr>owner_collectionId = 1, owner_userId = 1\<rparr>,
                          \<lparr>owner_collectionId = 10, owner_userId = 1\<rparr>],
     photos := [scratchPhoto], blobs := [''uploads/q.png'']\<rparr>"

text \<open>A request of \<open>alice\<close> to create a temporary collection with one photo.\<close>

definition tripForm :: collectionForm where
  "tripForm = \<lparr>form_name = Some ''Trip'', form_type = None,
     form_isTemporary = JsString ''true'',
     form_files = [\<lparr>file_originalname = ''sea.png'', file_mimetype = ''image/png'',
                    file_generatedName = ''photo-1700000000000-5.png'', file_title = None\<rparr>]\<rparr>"

definition tripAlbum :: collection where
  "tripAlbum = \<lparr>collection_id = 100, collection_name = ''Trip'', collection_type = Custom,
     collection_userId = Some 7, collection_isTemporary = Some True,
     collection_sessionId = Some ''s1'', collection_expiresAt = Some 1700000600000\<rparr>"

definition tripPhoto :: photo where
  "tripPhoto = \<lparr>photo_id = 100, photo_title = ''sea.png'',
     photo_fileName = ''photo-1700000000000-5.png'', photo_fileType = ''image/png'',
     photo_filePath = ''photo-1700000000000-5.png'', photo_isLiked = Some False,
     photo_collectionId = Some 100, photo_isTemporary = Some True,
     photo_sessionId = Some ''s1'', photo_expiresAt = Some 1700000600000\<rparr>"

definition permanentAlbum :: collection where
  "permanentAlbum = tempAlbum\<lparr>collection_isTemporary := Some False,
     collection_sessionId := None, collection_expiresAt := None\<rparr>"

definition permanentPhoto :: photo where
  "permanentPhoto = tempPhoto\<lparr>photo_isTemporary := Some False, photo_sessionId := None,
     photo_expiresAt := None\<rparr>"

text \<open>Two expired temporary photos and a permanent one; the first blob deletion fails.\<close>

definition expiredPhotoA :: photo where
  "expiredPhotoA = \<lparr>photo_id = 21, photo_title = ''a'', photo_fileName = ''a.png'',
     photo_fileType = ''image/png'', photo_filePath = ''a.png'', photo_isLiked = Some False,
     photo_collectionId = Some 10, photo_isTemporary = Some True, photo_sessionId = Some ''s1'',
     photo_expiresAt = Some 1699999999000\<rparr>"

definition expiredPhotoB :: photo where
  "expiredPhotoB = \<lparr>photo_id = 22, photo_title = ''b'', photo_fileName = ''b.png'',
     photo_fileType = ''image/png'', photo_filePath = ''uploads/b.png'',
     photo_isLiked = Some True, photo_collectionId = Some 10, photo_isTemporary = Some True,
     photo_sessionId = Some ''s1'', photo_expiresAt = Some 1699999999000\<rparr>"

definition worldSweep :: world where
  "worldSweep = emptyWorld\<lparr>users := [alice], sessions := [aliceSession],
     photos := [expiredPhotoA, photoA, expiredPhotoB],
     blobs := [''uploads/a.png'', ''uploads/b.png''], blobFaults := [True]\<rparr>"

section \<open>Basic facts about statements\<close>

lemmas monad_defs = returnE_def bindE_def catchE_def logRethrow_def lift_def logged_def
  console_error_def db_stmt_def db_select_def db_exec_def

lemmas table_defs = in_ids_def remove_photos_def remove_owners_def remove_collections_def
  remove_sessions_def remove_users_def upsert_session_def insert_user_def insert_owner_def


lemma db_stmt_no_faults:
  "dbFaults w = [] \<Longrightarrow> db_stmt f w = (Inr (fst (f w)), snd (f w))"
  by (simp add: db_stmt_def split: prod.splits)

section \<open>Composition rules\<close>

lemma frame_refl: "frame R \<Longrightarrow> R w w"
  by (simp add: frame_def)

lemma frame_trans: "frame R \<Longrightarrow> R a b \<Longrightarrow> R b c \<Longrightarrow> R a c"
  unfolding frame_def by blast

lemma frame_dbFaults: "frame R \<Longrightarrow> dbFaults w = x # fs \<Longrightarrow> R w (w\<lparr>dbFaults := fs\<rparr>)"
  unfolding frame_def by blast

lemma frame_blobFaults: "frame R \<Longrightarrow> blobFaults w = x # fs \<Longrightarrow> R w (w\<lparr>blobFaults := fs\<rparr>)"
  unfolding frame_def by blast

lemma frame_trace: "frame R \<Longrightarrow> R w (w\<lparr>trace := trace w @ evs\<rparr>)"
  unfolding frame_def by blast

lemma frame_blobs: "frame R \<Longrightarrow> R w (w\<lparr>blobs := bs\<rparr>)"
  unfolding frame_def by blast

lemma keepsD: "keeps R m \<Longrightarrow> R w (snd (m w))"
  by (simp add: keeps_def)

lemma keeps_console_error: "frame R \<Longrightarrow> R w (console_error msg w)"
  by (simp add: console_error_def frame_trace)

lemma keeps_returnE: "frame R \<Longrightarrow> keeps R (returnE x)"
  by (simp add: keeps_def returnE_def frame_refl)

lemma keeps_raise: "frame R \<Longrightarrow> keeps R (raise e)"
  by (simp add: keeps_def raise_def frame_refl)

lemma keeps_bindE:
  assumes "frame R" "keeps R m" "\<And>x. keeps R (f x)"
  shows "keeps R (bindE m f)"
  unfolding keeps_def
proof
  fix w
  show "R w (snd (bindE m f w))"
  proof (cases "m w")
    case (Pair r w1)
    have 1: "R w w1" using keepsD [OF assms(2), of w] Pair by simp
    show ?thesis
    proof (cases r)
      case (Inl e)
      with Pair 1 show ?thesis by (simp add: bindE_def)
    next
      case (Inr x)
      have "R w1 (snd (f x w1))" by (rule keepsD [OF assms(3)])
      with 1 have "R w (snd (f x w1))" by (rule frame_trans [OF assms(1)])
      with Pair Inr show ?thesis by (simp add: bindE_def)
    qed
  qed
qed

lemma keeps_catchE:
  assumes "frame R" "keeps R m" "\<And>e. keeps R (h e)"
  shows "keeps R (catchE m h)"
  unfolding keeps_def
proof
  fix w
  show "R w (snd (catchE m h w))"
  proof (cases "m w")
    case (Pair r w1)
    have 1: "R w w1" using keepsD [OF assms(2), of w] Pair by simp
    show ?thesis
    proof (cases r)
      case (Inl e)
      have "R w1 (snd (h e w1))" by (rule keepsD [OF assms(3)])
      with 1 have "R w (snd (h e w1))" by (rule frame_trans [OF assms(1)])
      with Pair Inl show ?thesis by (simp add: catchE_def)
    next
      case (Inr x)
      with Pair 1 show ?thesis by (simp add: catchE_def)
    qed
  qed
qed

lemma keeps_logged: "frame R \<Longrightarrow> keeps R (logged msg x e)"
  by (simp add: keeps_def logged_def keeps_console_error)

lemma keeps_logRethrow:
  assumes "frame R" "keeps R m"
  shows "keeps R (logRethrow msg m)"
  unfolding keeps_def
proof
  fix w
  obtain r w1 where p: "m w = (r, w1)" by (cases "m w")
  have 1: "R w w1" using keepsD [OF assms(2), of w] p by simp
  have 2: "R w1 (console_error msg w1)" by (rule keeps_console_error [OF assms(1)])
  show "R w (snd (logRethrow msg m w))"
    using p 1 frame_trans [OF assms(1) 1 2] by (cases r) (simp_all add: logRethrow_def)
qed

lemma keeps_lift: "keeps R m \<Longrightarrow> keeps R (lift m)"
  by (simp add: keeps_def lift_def split: prod.splits) (metis snd_conv)

lemma keeps_db_stmt:
  assumes "frame R" "keeps R f"
  shows "keeps R (db_stmt f)"
  unfolding keeps_def
proof
  fix w
  show "R w (snd (db_stmt f w))"
  proof (cases "dbFaults w")
    case Nil
    then show ?thesis using keepsD [OF assms(2), of w]
      by (cases "f w") (simp add: db_stmt_def)
  next
    case (Cons x fs)
    have 1: "R w (w\<lparr>dbFaults := fs\<rparr>)" by (rule frame_dbFaults [OF assms(1) Cons])
    show ?thesis
    proof (cases x)
      case None
      have "R (w\<lparr>dbFaults := fs\<rparr>) (snd (f (w\<lparr>dbFaults := fs\<rparr>)))"
        by (rule keepsD [OF assms(2)])
      with 1 have "R w (snd (f (w\<lparr>dbFaults := fs\<rparr>)))" by (rule frame_trans [OF assms(1)])
      with Cons None show ?thesis by (cases "f (w\<lparr>dbFaults := fs\<rparr>)") (simp add: db_stmt_def)
    next
      case (Some e)
      with Cons 1 show ?thesis by (simp add: db_stmt_def)
    qed
  qed
qed

lemma keeps_db_select: "frame R \<Longrightarrow> keeps R (db_select q)"
  unfolding db_select_def by (rule keeps_db_stmt) (simp_all add: keeps_def frame_refl)

lemma keeps_db_exec: "frame R \<Longrightarrow> step R f \<Longrightarrow> keeps R (db_exec f)"
  unfolding db_exec_def by (rule keeps_db_stmt) (simp_all add: keeps_def step_def)

text \<open>The result of a query is the query evaluated on some world.\<close>

lemma db_select_result: "db_select q w = (Inr x, w1) \<Longrightarrow> \<exists>w0. x = q w0"
  by (auto simp: db_select_def db_stmt_def split: list.splits option.splits)

lemma keeps_bindE_select:
  assumes "frame R" "\<And>w0. keeps R (f (q w0))"
  shows "keeps R (bindE (db_select q) f)"
  unfolding keeps_def
proof
  fix w
  obtain r w1 where p: "db_select q w = (r, w1)" by (cases "db_select q w")
  have "R w (snd (db_select q w))" by (rule keepsD [OF keeps_db_select [OF assms(1)]])
  with p have 1: "R w w1" by simp
  show "R w (snd (bindE (db_select q) f w))"
  proof (cases r)
    case (Inl e)
    with p 1 show ?thesis by (simp add: bindE_def)
  next
    case (Inr x)
    with p have "db_select q w = (Inr x, w1)" by simp
    from db_select_result [OF this] obtain w0 where "x = q w0" ..
    then have "R w1 (snd (f x w1))" using keepsD [OF assms(2)] by simp
    with 1 have "R w (snd (f x w1))" by (rule frame_trans [OF assms(1)])
    with p Inr show ?thesis by (simp add: bindE_def)
  qed
qed

lemma keeps_forEach:
  assumes "frame R" "\<And>x. x \<in> set xs \<Longrightarrow> keeps R (body x)"
  shows "keeps R (forEach xs body)"
proof -
  have "R w (snd (forEach xs body w))" for w
    using assms(2)
  proof (induction xs arbitrary: w)
    case Nil
    show ?case by (simp add: frame_refl [OF assms(1)])
  next
    case (Cons x xs)
    have 1: "R w (snd (body x w))" using Cons.prems [of x] by (simp add: keeps_def)
    have 2: "R (snd (body x w)) (snd (forEach xs body (snd (body x w))))"
      using Cons.IH Cons.prems by simp
    show ?case using frame_trans [OF assms(1) 1 2] by simp
  qed
  then show ?thesis by (simp add: keeps_def)
qed

lemma keeps_forEachE:
  assumes "frame R" "\<And>x. x \<in> set xs \<Longrightarrow> keeps R (body x)"
  shows "keeps R (forEachE xs body)"
proof -
  have "R w (snd (forEachE xs body w))" for w
    using assms(2)
  proof (induction xs arbitrary: w)
    case Nil
    show ?case by (simp add: frame_refl [OF assms(1)])
  next
    case (Cons x xs)
    obtain r w1 where p: "body x w = (r, w1)" by (cases "body x w")
    have 1: "R w w1" using Cons.prems [of x] p by (simp add: keeps_def) (metis snd_conv)
    have 2: "R w1 (snd (forEachE xs body w1))"
      using Cons.IH Cons.prems by simp
    show ?case using p 1 frame_trans [OF assms(1) 1 2] by (cases r) simp_all
  qed
  then show ?thesis by (simp add: keeps_def)
qed

lemma keeps_attempts:
  assumes "frame R" "keeps R operation"
  shows "keeps R (attempts n operation)"
proof -
  have "R w (snd (attempts n operation w))" for w
  proof (induction n arbitrary: w)
    case 0
    show ?case by (simp add: frame_refl [OF assms(1)])
  next
    case (Suc n)
    obtain r w1 where p: "operation w = (r, w1)" by (cases "operation w")
    have 1: "R w w1" using keepsD [OF assms(2), of w] p by simp
    have 2: "R w1 (console_error ''Database operation failed'' w1)"
      by (rule keeps_console_error [OF assms(1)])
    note 3 = frame_trans [OF assms(1) 1 2]
    have 4: "R w (snd (attempts n operation (console_error ''Database operation failed'' w1)))"
      by (rule frame_trans [OF assms(1) 3 Suc.IH])
    show ?case using p 1 3 4 by (cases r) (simp_all add: Let_def)
  qed
  then show ?thesis by (simp add: keeps_def)
qed

lemma keeps_blob_delete:
  assumes "frame R"
  shows "keeps R (blob_delete key)"
  unfolding keeps_def
proof
  fix w :: world
  let ?w1 = "w\<lparr>trace := trace w @ [BlobDeleteAttempt key]\<rparr>"
  have 1: "R w ?w1" by (rule frame_trace [OF assms])
  have 2: "R ?w1 (?w1\<lparr>blobs := bs\<rparr>)" for bs by (rule frame_blobs [OF assms])
  show "R w (snd (blob_delete key w))"
  proof (cases "blobFaults w")
    case Nil
    then show ?thesis
      using 1 frame_trans [OF assms 1 2] by (simp add: blob_delete_def Let_def)
  next
    case (Cons x fs)
    then have "blobFaults ?w1 = x # fs" by simp
    then have 3: "R ?w1 (?w1\<lparr>blobFaults := fs\<rparr>)" by (rule frame_blobFaults [OF assms])
    have 4: "R (?w1\<lparr>blobFaults := fs\<rparr>) (?w1\<lparr>blobFaults := fs, blobs := bs\<rparr>)" for bs
      using frame_blobs [OF assms, of "?w1\<lparr>blobFaults := fs\<rparr>" bs] by simp
    note 5 = frame_trans [OF assms 1 3]
    note 6 = frame_trans [OF assms 5 4]
    show ?thesis using Cons 5 6 by (cases x) (simp_all add: blob_delete_def Let_def)
  qed
qed

lemma keeps_blob_save:
  assumes "frame R"
  shows "keeps R (blob_save key)"
  unfolding keeps_def
proof
  fix w :: world
  have 2: "R w (w\<lparr>blobs := bs\<rparr>)" for bs by (rule frame_blobs [OF assms])
  show "R w (snd (blob_save key w))"
  proof (cases "blobFaults w")
    case Nil
    then show ?thesis using 2 by (simp add: blob_save_def)
  next
    case (Cons x fs)
    then have 3: "R w (w\<lparr>blobFaults := fs\<rparr>)" by (rule frame_blobFaults [OF assms])
    have 4: "R (w\<lparr>blobFaults := fs\<rparr>) (w\<lparr>blobFaults := fs, blobs := bs\<rparr>)" for bs
      using frame_blobs [OF assms, of "w\<lparr>blobFaults := fs\<rparr>" bs] by simp
    note 6 = frame_trans [OF assms 3 4]
    show ?thesis using Cons 3 6 by (cases x) (simp_all add: blob_save_def)
  qed
qed

lemma keeps_deletePhotoFromFirebaseStorage:
  "frame R \<Longrightarrow> keeps R (deletePhotoFromFirebaseStorage filePath)"
  unfolding deletePhotoFromFirebaseStorage_def
  by (intro keeps_catchE keeps_blob_delete keeps_logged)

lemma keeps_deleteBlobsOf: "frame R \<Longrightarrow> keeps R (deleteBlobsOf ps)"
  unfolding deleteBlobsOf_def
  by (intro keeps_forEach keeps_catchE keeps_lift keeps_deletePhotoFromFirebaseStorage keeps_logged)

lemma keeps_cleanupSteps:
  assumes "frame R" "\<And>P. step R (remove_photos P)"
    and "step R (remove_owners (\<lambda>ow. owner_collectionId ow \<in> set ids))"
    and "step R (remove_collections (\<lambda>c. collection_id c \<in> set ids))"
  shows "keeps R (cleanupSteps ids)"
  unfolding cleanupSteps_def cleanupPhotosFromFirebaseStorage_def cleanupPhotosFromDatabase_def
    cleanupCollectionOwnerships_def cleanupCollectionsFromDatabase_def
  by (intro keeps_bindE keeps_logRethrow keeps_db_select keeps_db_exec keeps_lift
      keeps_deleteBlobsOf assms)

section \<open>toggleLikePhoto\<close>

lemma find_photo_id: "find (\<lambda>p. photo_id p = i) ps = Some p \<Longrightarrow> p \<in> set ps \<and> photo_id p = i"
  by (induction ps) (auto split: if_splits)

lemma find_photo_none: "find (\<lambda>p. photo_id p = i) ps = None \<longleftrightarrow> i \<notin> photo_id ` set ps"
  by (induction ps) auto

lemma first_updated_photo:
  "find (\<lambda>p. photo_id p = i) ps = Some p \<Longrightarrow>
   (case filter (\<lambda>q. photo_id q = i)
           (map (\<lambda>q. if photo_id q = i then q\<lparr>photo_isLiked := Some v\<rparr> else q) ps) of
      [] \<Rightarrow> None | q # _ \<Rightarrow> Some q) = Some (p\<lparr>photo_isLiked := Some v\<rparr>)"
  by (induction ps) (auto split: if_splits)

lemma toggle_once:
  assumes nf: "dbFaults w = []"
    and f: "find (\<lambda>p. photo_id p = i) (photos w) = Some p"
  shows "toggleLikePhoto i w =
           (Inr (Some (p\<lparr>photo_isLiked := Some (\<not> truthy (photo_isLiked p))\<rparr>)),
            w\<lparr>photos := map (\<lambda>q. if photo_id q = i
                 then q\<lparr>photo_isLiked := Some (\<not> truthy (photo_isLiked p))\<rparr> else q) (photos w)\<rparr>)"
proof -
  have g: "getPhoto i w = (Inr (Some p), w)"
    using nf f by (simp add: getPhoto_def db_stmt_no_faults)
  show ?thesis
    using nf first_updated_photo [OF f]
    by (simp add: toggleLikePhoto_def g db_stmt_no_faults update_photo_isLiked_def Let_def)
qed

lemma toggle_absent:
  assumes nf: "dbFaults w = []"
    and f: "find (\<lambda>p. photo_id p = i) (photos w) = None"
  shows "toggleLikePhoto i w = (Inr None, w)"
  using nf f by (simp add: toggleLikePhoto_def getPhoto_def db_stmt_no_faults)

lemma find_after_toggle:
  "find (\<lambda>p. photo_id p = i) ps = Some p \<Longrightarrow>
   find (\<lambda>p. photo_id p = i)
     (map (\<lambda>q. if photo_id q = i then q\<lparr>photo_isLiked := Some v\<rparr> else q) ps)
     = Some (p\<lparr>photo_isLiked := Some v\<rparr>)"
  by (induction ps) (auto split: if_splits)

lemma map_toggle_twice:
  "map (\<lambda>q. if photo_id q = i then q\<lparr>photo_isLiked := Some b\<rparr> else q)
     (map (\<lambda>q. if photo_id q = i then q\<lparr>photo_isLiked := Some a\<rparr> else q) ps)
   = map (\<lambda>q. if photo_id q = i then q\<lparr>photo_isLiked := Some b\<rparr> else q) ps"
  by (induction ps) auto

lemma map_restore_unique:
  "distinct (map photo_id ps) \<Longrightarrow> p \<in> set ps \<Longrightarrow> photo_id p = i \<Longrightarrow>
   map (\<lambda>q. if photo_id q = i then q\<lparr>photo_isLiked := photo_isLiked p\<rparr> else q) ps = ps"
proof (induction ps)
  case Nil
  then show ?case by simp
next
  case (Cons a ps)
  show ?case
  proof (cases "a = p")
    case True
    with Cons.prems have "i \<notin> photo_id ` set ps" by auto
    then have "map (\<lambda>q. if photo_id q = i then q\<lparr>photo_isLiked := photo_isLiked p\<rparr> else q) ps = ps"
      by (induction ps) auto
    with True Cons.prems show ?thesis by simp
  next
    case False
    with Cons.prems have "p \<in> set ps" "photo_id a \<noteq> i" by (auto simp: image_iff)
    with Cons show ?thesis by simp
  qed
qed

text \<open>
  C10 (amended). With no storage error: for an existing photo id, \<open>toggleLikePhoto\<close>
  writes the negated truthiness of the stored \<open>isLiked\<close> to that row, changes nothing
  else and returns the updated row; two calls in a row leave \<open>isLiked\<close> at the
  truthiness of the original value, which restores the table exactly when the original
  \<open>isLiked\<close> was not null (ids being the primary key); for an id with no row it returns
  absent and changes no state.
\<close>

theorem toggleLikePhoto_flip_and_twice:
  assumes nf: "dbFaults w = []"
    and pk: "distinct (map photo_id (photos w))"
  shows "(find (\<lambda>p. photo_id p = i) (photos w) = Some p \<longrightarrow>
            toggleLikePhoto i w =
              (Inr (Some (p\<lparr>photo_isLiked := Some (\<not> truthy (photo_isLiked p))\<rparr>)),
               w\<lparr>photos := map (\<lambda>q. if photo_id q = i
                    then q\<lparr>photo_isLiked := Some (\<not> truthy (photo_isLiked p))\<rparr> else q) (photos w)\<rparr>)
          \<and> toggleLikePhoto i (snd (toggleLikePhoto i w)) =
              (Inr (Some (p\<lparr>photo_isLiked := Some (truthy (photo_isLiked p))\<rparr>)),
               w\<lparr>photos := map (\<lambda>q. if photo_id q = i
                    then q\<lparr>photo_isLiked := Some (truthy (photo_isLiked p))\<rparr> else q) (photos w)\<rparr>)
          \<and> (photo_isLiked p \<noteq> None \<longrightarrow>
                toggleLikePhoto i (snd (toggleLikePhoto i w)) = (Inr (Some p), w)))
       \<and> (find (\<lambda>p. photo_id p = i) (photos w) = None \<longrightarrow> toggleLikePhoto i w = (Inr None, w))"
proof (intro conjI impI)
  assume f: "find (\<lambda>p. photo_id p = i) (photos w) = Some p"
  let ?v = "\<not> truthy (photo_isLiked p)"
  let ?p1 = "p\<lparr>photo_isLiked := Some ?v\<rparr>"
  let ?w1 = "w\<lparr>photos := map (\<lambda>q. if photo_id q = i then q\<lparr>photo_isLiked := Some ?v\<rparr> else q) (photos w)\<rparr>"
  show one: "toggleLikePhoto i w = (Inr (Some ?p1), ?w1)"
    by (rule toggle_once [OF nf f])
  have nf1: "dbFaults ?w1 = []" using nf by simp
  have f1: "find (\<lambda>p. photo_id p = i) (photos ?w1) = Some ?p1"
    using find_after_toggle [OF f] by simp
  have tv: "(\<not> truthy (photo_isLiked ?p1)) = truthy (photo_isLiked p)"
    by (simp add: truthy_def)
  show two: "toggleLikePhoto i (snd (toggleLikePhoto i w)) =
      (Inr (Some (p\<lparr>photo_isLiked := Some (truthy (photo_isLiked p))\<rparr>)),
       w\<lparr>photos := map (\<lambda>q. if photo_id q = i
            then q\<lparr>photo_isLiked := Some (truthy (photo_isLiked p))\<rparr> else q) (photos w)\<rparr>)"
    unfolding one snd_conv toggle_once [OF nf1 f1] tv
    by (simp add: map_toggle_twice)
  assume nn: "photo_isLiked p \<noteq> None"
  then have same: "Some (truthy (photo_isLiked p)) = photo_isLiked p"
    by (auto simp: truthy_def)
  have mem: "p \<in> set (photos w)" "photo_id p = i"
    using find_photo_id [OF f] by simp_all
  show "toggleLikePhoto i (snd (toggleLikePhoto i w)) = (Inr (Some p), w)"
    unfolding two same using map_restore_unique [OF pk mem] by simp
next
  assume "find (\<lambda>p. photo_id p = i) (photos w) = None"
  then show "toggleLikePhoto i w = (Inr None, w)"
    by (rule toggle_absent [OF nf])
qed

theorem toggleLikePhoto_flip_and_twice_witness:
  "dbFaults worldA = [] \<and> distinct (map photo_id (photos worldA))
   \<and> find (\<lambda>p. photo_id p = 5) (photos worldA) = Some photoA
   \<and> photo_isLiked photoA \<noteq> None
   \<and> toggleLikePhoto 5 worldA =
       (Inr (Some (photoA\<lparr>photo_isLiked := Some True\<rparr>)),
        worldA\<lparr>photos := [photoA\<lparr>photo_isLiked := Some True\<rparr>]\<rparr>)
   \<and> toggleLikePhoto 5 (snd (toggleLikePhoto 5 worldA)) = (Inr (Some photoA), worldA)
   \<and> find (\<lambda>p. photo_id p = 7) (photos worldA) = None
   \<and> toggleLikePhoto 7 worldA = (Inr None, worldA)"
proof -
  have nf: "dbFaults worldA = []" by (simp add: worldA_def emptyWorld_def)
  have pk: "distinct (map photo_id (photos worldA))" by (simp add: worldA_def emptyWorld_def)
  have f5: "find (\<lambda>p. photo_id p = 5) (photos worldA) = Some photoA"
    by (simp add: worldA_def emptyWorld_def photoA_def)
  have f7: "find (\<lambda>p. photo_id p = 7) (photos worldA) = None"
    by (simp add: worldA_def emptyWorld_def photoA_def)
  have nn: "photo_isLiked photoA \<noteq> None" by (simp add: photoA_def)
  have tr: "(\<not> truthy (photo_isLiked photoA)) = True" by (simp add: photoA_def truthy_def)
  have ps: "map (\<lambda>q. if photo_id q = 5 then q\<lparr>photo_isLiked := Some True\<rparr> else q) (photos worldA)
      = [photoA\<lparr>photo_isLiked := Some True\<rparr>]"
    by (simp add: worldA_def emptyWorld_def photoA_def)
  from toggleLikePhoto_flip_and_twice [OF nf pk, of 5 photoA] f5 nn
  have one: "toggleLikePhoto 5 worldA =
       (Inr (Some (photoA\<lparr>photo_isLiked := Some (\<not> truthy (photo_isLiked photoA))\<rparr>)),
        worldA\<lparr>photos := map (\<lambda>q. if photo_id q = 5
           then q\<lparr>photo_isLiked := Some (\<not> truthy (photo_isLiked photoA))\<rparr> else q) (photos worldA)\<rparr>)"
    and two: "toggleLikePhoto 5 (snd (toggleLikePhoto 5 worldA)) = (Inr (Some photoA), worldA)"
    by blast+
  from toggleLikePhoto_flip_and_twice [OF nf pk, of 7 photoA] f7
  have three: "toggleLikePhoto 7 worldA = (Inr None, worldA)" by blast
  have one': "toggleLikePhoto 5 worldA =
       (Inr (Some (photoA\<lparr>photo_isLiked := Some True\<rparr>)),
        worldA\<lparr>photos := [photoA\<lparr>photo_isLiked := Some True\<rparr>]\<rparr>)"
    using one unfolding tr ps .
  show ?thesis using nf pk f5 nn one' two f7 three by blast
qed

text \<open>
  The claim as stated fails on a row whose nullable \<open>is_liked\<close> is null: two toggles
  leave it \<open>false\<close>, not the original null.
\<close>

theorem toggleLikePhoto_null_counterexample:
  "map photo_isLiked (photos worldNull) = [None]
   \<and> map photo_isLiked (photos (snd (toggleLikePhoto 6 (snd (toggleLikePhoto 6 worldNull)))))
       = [Some False]"
  by (simp add: worldNull_def emptyWorld_def photoNull_def photoA_def toggleLikePhoto_def
      getPhoto_def db_stmt_def update_photo_isLiked_def truthy_def Let_def)

section \<open>Session store\<close>

lemma take1_filter_find:
  "take (Suc 0) (filter P xs) = (case find P xs of None \<Rightarrow> [] | Some x \<Rightarrow> [x])"
  by (induction xs) auto

lemma find_session_id:
  "find (\<lambda>s. session_id s = sid) ss = Some s \<Longrightarrow> s \<in> set ss \<and> session_id s = sid"
  by (induction ss) (auto split: if_splits)

lemma store_get_select_fails:
  "dbFaults w = Some e # fs \<Longrightarrow>
   store_get sid now w = (None, console_error ''Error getting session:'' (w\<lparr>dbFaults := fs\<rparr>))"
  by (simp add: store_get_def catchE_def bindE_def db_select_def db_stmt_def logged_def)

lemma store_set_fails:
  "dbFaults w = Some e # fs \<Longrightarrow>
   store_set sid sd w =
     (Inl (DbError e), console_error ''Error setting session:'' (w\<lparr>dbFaults := fs\<rparr>))"
  by (simp add: store_set_def logRethrow_def db_exec_def db_stmt_def)

lemma store_get_live:
  assumes "find (\<lambda>s. session_id s = sid) (sessions w) = Some s"
    and "\<not> session_expiresAt s < now"
  shows "dbFaults w = [] \<Longrightarrow> store_get sid now w =
           (Some \<lparr>sd_userId = session_userId s, sd_username = session_username s,
                  sd_expiresAt = session_expiresAt s\<rparr>, w)"
    and "dbFaults w = None # fs \<Longrightarrow> store_get sid now w =
           (Some \<lparr>sd_userId = session_userId s, sd_username = session_username s,
                  sd_expiresAt = session_expiresAt s\<rparr>, w\<lparr>dbFaults := fs\<rparr>)"
  using assms
  by (simp_all add: store_get_def catchE_def bindE_def db_select_def db_stmt_def returnE_def
      take1_filter_find)

lemma store_get_expired_absent:
  assumes "find (\<lambda>s. session_id s = sid) (sessions w) = Some s"
    and "session_expiresAt s < now"
  shows "fst (store_get sid now w) = None"
proof (cases "dbFaults w")
  case Nil
  with assms show ?thesis
    by (simp add: store_get_def catchE_def bindE_def db_select_def db_stmt_def returnE_def
        lift_def take1_filter_find split: prod.splits)
next
  case (Cons f fs)
  with assms show ?thesis
    by (cases f)
      (simp_all add: store_get_def catchE_def bindE_def db_select_def db_stmt_def returnE_def
        lift_def logged_def take1_filter_find split: prod.splits)
qed

section \<open>Lazy expiry\<close>


lemma sessions_remove [simp]:
  "sessions (remove_photos P w) = sessions w"
  "sessions (remove_owners Q w) = sessions w"
  "sessions (remove_collections C w) = sessions w"
  "sessions (remove_sessions S w) = filter (\<lambda>s. \<not> S s) (sessions w)"
  by (simp_all add: remove_photos_def remove_owners_def remove_collections_def
      remove_sessions_def Let_def)


lemma dbFaults_remove [simp]:
  "dbFaults (remove_photos P w) = dbFaults w"
  "dbFaults (remove_owners Q w) = dbFaults w"
  "dbFaults (remove_collections C w) = dbFaults w"
  "dbFaults (remove_sessions S w) = dbFaults w"
  "dbFaults (remove_users U w) = dbFaults w"
  by (simp_all add: remove_photos_def remove_owners_def remove_collections_def
      remove_sessions_def remove_users_def Let_def)







lemma bindE_select_nf: "dbFaults w = [] \<Longrightarrow> bindE (db_select q) f w = f (q w) w"
  by (simp add: bindE_def db_select_def db_stmt_def)


lemma bindE_lift: "bindE (lift m) f w = f (fst (m w)) (snd (m w))"
  by (simp add: bindE_def lift_def split: prod.splits)

lemma db_exec_nf: "dbFaults w = [] \<Longrightarrow> db_exec g w = (Inr (), g w)"
  by (simp add: db_exec_def db_stmt_def)







text \<open>
  C6 (amended). A storage error raised by the read of \<open>get\<close> is caught and logged inside
  the store and the caller sees the session as absent, also through \<open>getSession\<close>; on an
  expired row \<open>get\<close> answers absent whatever errors its deletion meets. A storage error
  raised during \<open>set\<close> is logged inside the store and rethrown: it propagates from
  \<open>createSession\<close>, and from \<open>getSession\<close> when the write of its auto-renewal fails.
\<close>

theorem session_store_error_paths:
  "(dbFaults w = Some e # fs \<longrightarrow>
      store_get sid now w = (None, console_error ''Error getting session:'' (w\<lparr>dbFaults := fs\<rparr>))
    \<and> getSession sid now w =
        (Inr None, console_error ''Error getting session:'' (w\<lparr>dbFaults := fs\<rparr>))
    \<and> store_set sid sd w =
        (Inl (DbError e), console_error ''Error setting session:'' (w\<lparr>dbFaults := fs\<rparr>))
    \<and> createSession uid name sid now w =
        (Inl (DbError e), console_error ''Error setting session:'' (w\<lparr>dbFaults := fs\<rparr>)))
   \<and> (find (\<lambda>s. session_id s = sid) (sessions w) = Some s \<and> session_expiresAt s < now \<longrightarrow>
        fst (store_get sid now w) = None)
   \<and> (dbFaults w = None # Some e # fs
      \<and> find (\<lambda>s. session_id s = sid) (sessions w) = Some s
      \<and> \<not> session_expiresAt s < now
      \<and> session_expiresAt s - now < SESSION_REFRESH_THRESHOLD \<longrightarrow>
        getSession sid now w =
          (Inl (DbError e), console_error ''Error setting session:'' (w\<lparr>dbFaults := fs\<rparr>)))"
proof (intro conjI impI)
  assume f: "dbFaults w = Some e # fs"
  show "store_get sid now w = (None, console_error ''Error getting session:'' (w\<lparr>dbFaults := fs\<rparr>))"
    by (rule store_get_select_fails [OF f])
  show "getSession sid now w =
      (Inr None, console_error ''Error getting session:'' (w\<lparr>dbFaults := fs\<rparr>))"
    by (simp add: getSession_def bindE_def lift_def store_get_select_fails [OF f] returnE_def)
  show "store_set sid sd w =
      (Inl (DbError e), console_error ''Error setting session:'' (w\<lparr>dbFaults := fs\<rparr>))"
    by (rule store_set_fails [OF f])
  show "createSession uid name sid now w =
      (Inl (DbError e), console_error ''Error setting session:'' (w\<lparr>dbFaults := fs\<rparr>))"
    by (simp add: createSession_def bindE_def store_set_fails [OF f])
next
  assume "find (\<lambda>s. session_id s = sid) (sessions w) = Some s \<and> session_expiresAt s < now"
  then show "fst (store_get sid now w) = None"
    using store_get_expired_absent by blast
next
  assume a: "dbFaults w = None # Some e # fs
      \<and> find (\<lambda>s. session_id s = sid) (sessions w) = Some s
      \<and> \<not> session_expiresAt s < now
      \<and> session_expiresAt s - now < SESSION_REFRESH_THRESHOLD"
  then have g: "store_get sid now w =
           (Some \<lparr>sd_userId = session_userId s, sd_username = session_username s,
                  sd_expiresAt = session_expiresAt s\<rparr>, w\<lparr>dbFaults := Some e # fs\<rparr>)"
    using store_get_live(2) by blast
  have d: "dbFaults (w\<lparr>dbFaults := Some e # fs\<rparr>) = Some e # fs" by simp
  show "getSession sid now w =
      (Inl (DbError e), console_error ''Error setting session:'' (w\<lparr>dbFaults := fs\<rparr>))"
    using a by (simp add: getSession_def bindE_def lift_def g Let_def store_set_fails [OF d])
qed

theorem session_store_error_paths_witness:
  "dbFaults worldAliceDown = Some ECONNRESET # []
   \<and> store_get ''s1'' 1700000000000 worldAliceDown =
       (None, console_error ''Error getting session:'' (worldAliceDown\<lparr>dbFaults := []\<rparr>))
   \<and> store_set ''s1'' aliceData worldAliceDown =
       (Inl (DbError ECONNRESET),
        console_error ''Error setting session:'' (worldAliceDown\<lparr>dbFaults := []\<rparr>))
   \<and> find (\<lambda>s. session_id s = ''s1'') (sessions worldAliceDownLater) = Some aliceSession
   \<and> session_expiresAt aliceSession < 1700000070000
   \<and> fst (store_get ''s1'' 1700000070000 worldAliceDownLater) = None
   \<and> dbFaults worldAliceDownLater = None # Some ECONNRESET # []
   \<and> \<not> session_expiresAt aliceSession < 1700000000000
   \<and> session_expiresAt aliceSession - 1700000000000 < SESSION_REFRESH_THRESHOLD
   \<and> getSession ''s1'' 1700000000000 worldAliceDownLater =
       (Inl (DbError ECONNRESET),
        console_error ''Error setting session:'' (worldAliceDownLater\<lparr>dbFaults := []\<rparr>))"
proof -
  have d1: "dbFaults worldAliceDown = Some ECONNRESET # []"
    by (simp add: worldAliceDown_def)
  have d2: "dbFaults worldAliceDownLater = None # Some ECONNRESET # []"
    by (simp add: worldAliceDownLater_def)
  have f: "find (\<lambda>s. session_id s = ''s1'') (sessions worldAliceDownLater) = Some aliceSession"
    by (simp add: worldAliceDownLater_def worldAlice_def emptyWorld_def aliceSession_def)
  have t1: "session_expiresAt aliceSession < 1700000070000"
    and t2: "\<not> session_expiresAt aliceSession < 1700000000000"
    and t3: "session_expiresAt aliceSession - 1700000000000 < SESSION_REFRESH_THRESHOLD"
    by (simp_all add: aliceSession_def SESSION_REFRESH_THRESHOLD_def)
  note a = session_store_error_paths
    [of worldAliceDown ECONNRESET "[]" "''s1''" 1700000000000 aliceData 7 "''alice''" aliceSession]
  note b = session_store_error_paths
    [of worldAliceDownLater ECONNRESET "[]" "''s1''" 1700000070000 aliceData 7 "''alice''"
      aliceSession]
  note c = session_store_error_paths
    [of worldAliceDownLater ECONNRESET "[]" "''s1''" 1700000000000 aliceData 7 "''alice''"
      aliceSession]
  from a d1 have g1: "store_get ''s1'' 1700000000000 worldAliceDown =
       (None, console_error ''Error getting session:'' (worldAliceDown\<lparr>dbFaults := []\<rparr>))"
    and g2: "store_set ''s1'' aliceData worldAliceDown =
       (Inl (DbError ECONNRESET),
        console_error ''Error setting session:'' (worldAliceDown\<lparr>dbFaults := []\<rparr>))"
    by blast+
  from b f t1 have g3: "fst (store_get ''s1'' 1700000070000 worldAliceDownLater) = None"
    by blast
  from c d2 f t2 t3 have g4: "getSession ''s1'' 1700000000000 worldAliceDownLater =
       (Inl (DbError ECONNRESET),
        console_error ''Error setting session:'' (worldAliceDownLater\<lparr>dbFaults := []\<rparr>))"
    by blast
  show ?thesis using d1 d2 f t1 t2 t3 g1 g2 g3 g4 by blast
qed

text \<open>
  The claim as stated fails for \<open>set\<close>: its storage error reaches the caller as an
  exception, from \<open>set\<close> itself and from the authenticated read that renews a session.
\<close>

theorem store_set_error_counterexample:
  "fst (store_set ''s1'' aliceData worldAliceDown) = Inl (DbError ECONNRESET)
   \<and> fst (getSession ''s1'' 1700000000000 worldAliceDownLater) = Inl (DbError ECONNRESET)"
  by (simp add: worldAliceDown_def worldAliceDownLater_def worldAlice_def emptyWorld_def
      aliceSession_def aliceData_def getSession_def store_get_def store_set_def
      SESSION_REFRESH_THRESHOLD_def SESSION_DURATION_def monad_defs table_defs Let_def)

lemma unique_session_row:
  "distinct (map session_id ss) \<Longrightarrow> find (\<lambda>s. session_id s = sid) ss = Some s \<Longrightarrow>
   r \<in> set ss \<Longrightarrow> session_id r = sid \<Longrightarrow> r = s"
  by (induction ss) (auto split: if_splits simp: image_iff)

lemma upsert_existing:
  assumes pk: "distinct (map session_id (sessions w))"
    and row: "find (\<lambda>s. session_id s = sid) (sessions w) = Some s"
  shows "upsert_session sid \<lparr>sd_userId = session_userId s, sd_username = session_username s,
            sd_expiresAt = t\<rparr> w =
         w\<lparr>sessions := map (\<lambda>r. if session_id r = sid then r\<lparr>session_expiresAt := t\<rparr> else r)
                          (sessions w)\<rparr>"
proof -
  have mem: "sid \<in> session_id ` set (sessions w)"
    using find_session_id [OF row] by force
  have step1: "upsert_session sid \<lparr>sd_userId = session_userId s,
                  sd_username = session_username s, sd_expiresAt = t\<rparr> w
        = w\<lparr>sessions := map (\<lambda>r. if session_id r = sid
                  then r\<lparr>session_userId := session_userId s, session_username := session_username s,
                         session_expiresAt := t\<rparr> else r) (sessions w)\<rparr>"
    using mem by (simp add: upsert_session_def)
  have step2: "map (\<lambda>r. if session_id r = sid
                  then r\<lparr>session_userId := session_userId s, session_username := session_username s,
                         session_expiresAt := t\<rparr> else r) (sessions w)
        = map (\<lambda>r. if session_id r = sid then r\<lparr>session_expiresAt := t\<rparr> else r) (sessions w)"
    using unique_session_row [OF pk row] by (intro map_cong) auto
  show ?thesis by (simp only: step1 step2)
qed

text \<open>
  C5. With no storage error, for a session row that is present and unexpired with
  \<open>expiresAt - now < SESSION_REFRESH_THRESHOLD\<close> (2 minutes), the authenticated read
  \<open>getSession\<close> stores \<open>expiresAt = now + SESSION_DURATION\<close> (10 minutes) in the row
  and returns the session with that new expiry, not the original one.
\<close>

theorem getSession_auto_renews:
  assumes nf: "dbFaults w = []"
    and pk: "distinct (map session_id (sessions w))"
    and row: "find (\<lambda>s. session_id s = sid) (sessions w) = Some s"
    and live: "\<not> session_expiresAt s < now"
    and close: "session_expiresAt s - now < SESSION_REFRESH_THRESHOLD"
  shows "getSession sid now w =
     (Inr (Some \<lparr>sd_userId = session_userId s, sd_username = session_username s,
                 sd_expiresAt = now + SESSION_DURATION\<rparr>),
      w\<lparr>sessions := map (\<lambda>r. if session_id r = sid
                            then r\<lparr>session_expiresAt := now + SESSION_DURATION\<rparr> else r)
                       (sessions w)\<rparr>)
     \<and> SESSION_REFRESH_THRESHOLD = 2 * 60 * 1000 \<and> SESSION_DURATION = 10 * 60 * 1000"
proof -
  have g: "store_get sid now w =
           (Some \<lparr>sd_userId = session_userId s, sd_username = session_username s,
                  sd_expiresAt = session_expiresAt s\<rparr>, w)"
    by (rule store_get_live(1) [OF row live nf])
  have st: "store_set sid \<lparr>sd_userId = session_userId s, sd_username = session_username s,
                 sd_expiresAt = now + SESSION_DURATION\<rparr> w =
        (Inr (), w\<lparr>sessions := map (\<lambda>r. if session_id r = sid
                            then r\<lparr>session_expiresAt := now + SESSION_DURATION\<rparr> else r)
                       (sessions w)\<rparr>)"
    using nf upsert_existing [OF pk row]
    by (simp add: store_set_def logRethrow_def db_exec_def db_stmt_def)
  have main: "getSession sid now w =
     (Inr (Some \<lparr>sd_userId = session_userId s, sd_username = session_username s,
                 sd_expiresAt = now + SESSION_DURATION\<rparr>),
      w\<lparr>sessions := map (\<lambda>r. if session_id r = sid
                            then r\<lparr>session_expiresAt := now + SESSION_DURATION\<rparr> else r)
                       (sessions w)\<rparr>)"
    using close by (simp add: getSession_def bindE_def lift_def g Let_def st returnE_def)
  show ?thesis
    using main by (simp add: SESSION_REFRESH_THRESHOLD_def SESSION_DURATION_def)
qed

theorem getSession_auto_renews_witness:
  "dbFaults worldAlice = [] \<and> distinct (map session_id (sessions worldAlice))
   \<and> find (\<lambda>s. session_id s = ''s1'') (sessions worldAlice) = Some aliceSession
   \<and> \<not> session_expiresAt aliceSession < 1700000000000
   \<and> session_expiresAt aliceSession - 1700000000000 < SESSION_REFRESH_THRESHOLD
   \<and> session_expiresAt aliceSession = 1700000060000
   \<and> getSession ''s1'' 1700000000000 worldAlice =
       (Inr (Some \<lparr>sd_userId = 7, sd_username = ''alice'', sd_expiresAt = 1700000600000\<rparr>),
        worldAlice\<lparr>sessions := [aliceSession\<lparr>session_expiresAt := 1700000600000\<rparr>]\<rparr>)"
proof -
  have nf: "dbFaults worldAlice = []" by (simp add: worldAlice_def emptyWorld_def)
  have pk: "distinct (map session_id (sessions worldAlice))"
    by (simp add: worldAlice_def emptyWorld_def)
  have row: "find (\<lambda>s. session_id s = ''s1'') (sessions worldAlice) = Some aliceSession"
    by (simp add: worldAlice_def emptyWorld_def aliceSession_def)
  have live: "\<not> session_expiresAt aliceSession < 1700000000000"
    and close: "session_expiresAt aliceSession - 1700000000000 < SESSION_REFRESH_THRESHOLD"
    and exp: "session_expiresAt aliceSession = 1700000060000"
    by (simp_all add: aliceSession_def SESSION_REFRESH_THRESHOLD_def)
  have fields: "session_userId aliceSession = 7" "session_username aliceSession = ''alice''"
    "1700000000000 + SESSION_DURATION = 1700000600000"
    by (simp_all add: aliceSession_def SESSION_DURATION_def)
  have rows: "map (\<lambda>r. if session_id r = ''s1''
                        then r\<lparr>session_expiresAt := 1700000600000\<rparr> else r) (sessions worldAlice)
      = [aliceSession\<lparr>session_expiresAt := 1700000600000\<rparr>]"
    by (simp add: worldAlice_def emptyWorld_def aliceSession_def)
  have "getSession ''s1'' 1700000000000 worldAlice =
       (Inr (Some \<lparr>sd_userId = 7, sd_username = ''alice'', sd_expiresAt = 1700000600000\<rparr>),
        worldAlice\<lparr>sessions := [aliceSession\<lparr>session_expiresAt := 1700000600000\<rparr>]\<rparr>)"
    using getSession_auto_renews [OF nf pk row live close]
    unfolding fields rows by blast
  with nf pk row live close exp show ?thesis by blast
qed

section \<open>Protected collections\<close>

lemma frame_protectedKept: "frame protectedKept"
  unfolding frame_def protectedKept_def by auto

lemma protected_remove_photos: "step protectedKept (remove_photos P)"
  by (simp add: step_def protectedKept_def remove_photos_def)

lemma protected_remove_owners:
  "set ids \<inter> set PROTECTED_COLLECTION_IDS = {} \<Longrightarrow>
   step protectedKept (remove_owners (\<lambda>ow. owner_collectionId ow \<in> set ids))"
  by (auto simp: step_def protectedKept_def remove_owners_def)

lemma protected_remove_collections:
  "set ids \<inter> set PROTECTED_COLLECTION_IDS = {} \<Longrightarrow>
   step protectedKept (remove_collections (\<lambda>c. collection_id c \<in> set ids))"
  by (auto simp: step_def protectedKept_def remove_collections_def remove_owners_def Let_def)

lemma nonprotected_ids:
  "set (map collection_id (filter (\<lambda>c. collection_id c \<notin> set PROTECTED_COLLECTION_IDS) cs))
     \<inter> set PROTECTED_COLLECTION_IDS = {}"
  by auto

lemma protected_cleanupSteps:
  "set ids \<inter> set PROTECTED_COLLECTION_IDS = {} \<Longrightarrow> keeps protectedKept (cleanupSteps ids)"
  by (intro keeps_cleanupSteps frame_protectedKept protected_remove_photos
      protected_remove_owners protected_remove_collections)

lemma protected_cleanupDemoCollectionsAndPhotos:
  "keeps protectedKept (cleanupDemoCollectionsAndPhotos uid)"
  unfolding cleanupDemoCollectionsAndPhotos_def
  apply (rule keeps_logRethrow [OF frame_protectedKept])
  apply (rule keeps_bindE_select [OF frame_protectedKept])
  apply (simp add: keeps_returnE [OF frame_protectedKept])
  apply (intro impI protected_cleanupSteps nonprotected_ids)
  done

lemma protected_cleanupDemoUserContent: "keeps protectedKept cleanupDemoUserContent"
  unfolding cleanupDemoUserContent_def
  by (intro keeps_catchE keeps_bindE keeps_db_select keeps_logged frame_protectedKept)
    (auto split: list.splits intro: keeps_returnE [OF frame_protectedKept]
       protected_cleanupDemoCollectionsAndPhotos)

lemma protected_cleanupDemoUserContentForSession:
  "keeps protectedKept (cleanupDemoUserContentForSession sid)"
  unfolding cleanupDemoUserContentForSession_def
  by (intro keeps_catchE keeps_bindE keeps_db_select keeps_logged frame_protectedKept)
    (auto split: list.splits intro: keeps_returnE [OF frame_protectedKept]
       protected_cleanupDemoCollectionsAndPhotos)

text \<open>
  C7. The protected allowlist is \<open>{1, 2, 3, 4, 6}\<close>. Whatever statements raise, after
  \<open>cleanupDemoUserContent\<close> and after \<open>cleanupDemoUserContentForSession\<close> every
  protected collection that existed before still exists, and every ownership row of a
  protected collection (the demo account's among them) is still there.
\<close>

theorem cleanup_keeps_protected_collections:
  "set PROTECTED_COLLECTION_IDS = {1, 2, 3, 4, 6}
   \<and> (\<forall>c \<in> set (collections w). collection_id c \<in> set PROTECTED_COLLECTION_IDS \<longrightarrow>
          c \<in> set (collections (snd (cleanupDemoUserContent w)))
        \<and> c \<in> set (collections (snd (cleanupDemoUserContentForSession sid w))))
   \<and> (\<forall>ow \<in> set (collectionOwners w). owner_collectionId ow \<in> set PROTECTED_COLLECTION_IDS \<longrightarrow>
          ow \<in> set (collectionOwners (snd (cleanupDemoUserContent w)))
        \<and> ow \<in> set (collectionOwners (snd (cleanupDemoUserContentForSession sid w))))"
proof -
  have a: "protectedKept w (snd (cleanupDemoUserContent w))"
    by (rule keepsD [OF protected_cleanupDemoUserContent])
  have b: "protectedKept w (snd (cleanupDemoUserContentForSession sid w))"
    by (rule keepsD [OF protected_cleanupDemoUserContentForSession])
  have c: "set PROTECTED_COLLECTION_IDS = {1, 2, 3, 4, 6}"
    by (simp add: PROTECTED_COLLECTION_IDS_def)
  show ?thesis using a b unfolding protectedKept_def c by blast
qed

theorem cleanup_keeps_protected_collections_witness:
  "protectedAlbum \<in> set (collections worldDemo)
   \<and> collection_id protectedAlbum \<in> set PROTECTED_COLLECTION_IDS
   \<and> protectedAlbum \<in> set (collections (snd (cleanupDemoUserContent worldDemo)))
   \<and> protectedAlbum \<in> set (collections (snd (cleanupDemoUserContentForSession ''d1'' worldDemo)))
   \<and> \<lparr>owner_collectionId = 1, owner_userId = 1\<rparr> \<in> set (collectionOwners worldDemo)
   \<and> \<lparr>owner_collectionId = 1, owner_userId = 1\<rparr>
        \<in> set (collectionOwners (snd (cleanupDemoUserContent worldDemo)))
   \<and> \<lparr>owner_collectionId = 1, owner_userId = 1\<rparr>
        \<in> set (collectionOwners (snd (cleanupDemoUserContentForSession ''d1'' worldDemo)))
   \<and> scratchAlbum \<in> set (collections worldDemo)
   \<and> collections (snd (cleanupDemoUserContent worldDemo)) = [protectedAlbum]
   \<and> photos (snd (cleanupDemoUserContent worldDemo)) = []"
proof -
  have m1: "protectedAlbum \<in> set (collections worldDemo)"
    and m2: "scratchAlbum \<in> set (collections worldDemo)"
    and m3: "\<lparr>owner_collectionId = 1, owner_userId = 1\<rparr> \<in> set (collectionOwners worldDemo)"
    by (simp_all add: worldDemo_def emptyWorld_def)
  have p1: "collection_id protectedAlbum \<in> set PROTECTED_COLLECTION_IDS"
    by (simp add: protectedAlbum_def PROTECTED_COLLECTION_IDS_def)
  have p2: "owner_collectionId \<lparr>owner_collectionId = 1, owner_userId = 1\<rparr>
      \<in> set PROTECTED_COLLECTION_IDS"
    by (simp add: PROTECTED_COLLECTION_IDS_def)
  note k = cleanup_keeps_protected_collections [of worldDemo "''d1''"]
  from k m1 p1 have c1: "protectedAlbum \<in> set (collections (snd (cleanupDemoUserContent worldDemo)))"
    and c2: "protectedAlbum
      \<in> set (collections (snd (cleanupDemoUserContentForSession ''d1'' worldDemo)))"
    by blast+
  from k m3 p2 have o1: "\<lparr>owner_collectionId = 1, owner_userId = 1\<rparr>
        \<in> set (collectionOwners (snd (cleanupDemoUserContent worldDemo)))"
    and o2: "\<lparr>owner_collectionId = 1, owner_userId = 1\<rparr>
        \<in> set (collectionOwners (snd (cleanupDemoUserContentForSession ''d1'' worldDemo)))"
    by blast+
  have e1: "collections (snd (cleanupDemoUserContent worldDemo)) = [protectedAlbum]"
    by code_simp
  have e2: "photos (snd (cleanupDemoUserContent worldDemo)) = []"
    by code_simp
  show ?thesis using m1 m2 m3 p1 c1 c2 o1 o2 e1 e2 by blast
qed

section \<open>Temporal flags\<close>

lemma frame_flagsKept: "frame flagsKept"
  unfolding frame_def flagsKept_def by auto

lemma flags_insert_owner: "step flagsKept (insert_owner cid uid)"
  by (simp add: step_def flagsKept_def insert_owner_def)

lemma flags_insert_collection:
  "temporalFlagOK (Some (case ic_isTemporary ic of None \<Rightarrow> False | Some b \<Rightarrow> b))
     (ic_sessionId ic) (ic_expiresAt ic) \<Longrightarrow>
   keeps flagsKept (insert_collection ic)"
  by (auto simp: keeps_def flagsKept_def insert_collection_def Let_def collectionFlagOK_def)

lemma flags_insert_photo:
  "temporalFlagOK (Some (case ip_isTemporary ip of None \<Rightarrow> False | Some b \<Rightarrow> b))
     (ip_sessionId ip) (ip_expiresAt ip) \<Longrightarrow>
   keeps flagsKept (insert_photo ip)"
  by (auto simp: keeps_def flagsKept_def insert_photo_def Let_def photoFlagOK_def)

lemma flags_set_collection_permanent: "keeps flagsKept (set_collection_permanent i)"
  by (auto simp: keeps_def flagsKept_def set_collection_permanent_def Let_def
      collectionFlagOK_def temporalFlagOK_def)

lemma flags_set_photo_permanent: "keeps flagsKept (set_photo_permanent i)"
  by (auto simp: keeps_def flagsKept_def set_photo_permanent_def Let_def
      photoFlagOK_def temporalFlagOK_def)

lemma flags_makeCollectionPermanent: "keeps flagsKept (makeCollectionPermanent i)"
  unfolding makeCollectionPermanent_def
  by (intro keeps_catchE keeps_bindE keeps_db_stmt keeps_returnE keeps_logged frame_flagsKept
      flags_set_collection_permanent)

lemma flags_makePhotoPermanent: "keeps flagsKept (makePhotoPermanent i)"
  unfolding makePhotoPermanent_def
  by (intro keeps_catchE keeps_bindE keeps_db_stmt keeps_returnE keeps_logged frame_flagsKept
      flags_set_photo_permanent)

lemma flags_getUserPartner: "keeps flagsKept (getUserPartner uid)"
  unfolding getUserPartner_def
  by (intro keeps_bindE keeps_db_select frame_flagsKept)
    (auto split: list.splits simp: Let_def
       intro!: keeps_returnE [OF frame_flagsKept] keeps_bindE [OF frame_flagsKept]
         keeps_db_select [OF frame_flagsKept])

lemma flags_createCollection:
  assumes "temporalFlagOK (Some (case ic_isTemporary ic of None \<Rightarrow> False | Some b \<Rightarrow> b))
     (ic_sessionId ic) (ic_expiresAt ic)"
  shows "keeps flagsKept (createCollection ic)"
  unfolding createCollection_def
  by (intro keeps_bindE keeps_db_stmt frame_flagsKept flags_insert_collection assms)
    (auto split: option.splits
       intro!: keeps_raise [OF frame_flagsKept] keeps_bindE [OF frame_flagsKept]
         keeps_db_exec [OF frame_flagsKept] flags_insert_owner flags_getUserPartner
         keeps_returnE [OF frame_flagsKept])

lemma flags_savePhotoToFirebaseStorage: "keeps flagsKept (savePhotoToFirebaseStorage fileName)"
  unfolding keeps_def
proof
  fix w
  obtain r w1 where p: "blob_save (''uploads/'' @ fileName) w = (r, w1)"
    by (cases "blob_save (''uploads/'' @ fileName) w")
  have "flagsKept w (snd (blob_save (''uploads/'' @ fileName) w))"
    by (rule keepsD [OF keeps_blob_save [OF frame_flagsKept]])
  with p have 1: "flagsKept w w1" by simp
  have 2: "flagsKept w1 (console_error ''Error saving photo to Firebase Storage:'' w1)"
    by (rule keeps_console_error [OF frame_flagsKept])
  show "flagsKept w (snd (savePhotoToFirebaseStorage fileName w))"
    using p 1 frame_trans [OF frame_flagsKept 1 2]
    by (cases r) (simp_all add: savePhotoToFirebaseStorage_def)
qed

lemma flags_uploadPhotos:
  assumes "temporalFlagOK (Some makeTemporary) sessionId expiresAt"
  shows "keeps flagsKept (uploadPhotos files collection makeTemporary sessionId expiresAt)"
  unfolding uploadPhotos_def withDatabaseRetry_def createPhoto_def
  by (intro keeps_forEachE keeps_bindE keeps_attempts keeps_db_stmt keeps_returnE
      flags_savePhotoToFirebaseStorage frame_flagsKept flags_insert_photo)
    (simp add: assms)

lemma flags_createFailed: "keeps flagsKept (createFailed e)"
  by (simp add: keeps_def createFailed_def keeps_console_error [OF frame_flagsKept])

lemma bindE_returnE: "bindE (returnE x) f = f x"
  by (rule ext) (simp add: bindE_def returnE_def)

lemma bindE_raise: "bindE (raise e) f = raise e"
  by (rule ext) (simp add: bindE_def raise_def)

lemma route_flags:
  "truthyString sid \<Longrightarrow>
   temporalFlagOK (Some mt) (if mt then sid else None)
     (if mt \<and> truthyString (if mt then sid else None) then Some t else None)"
  by (cases sid) (auto simp: temporalFlagOK_def truthyString_def)

lemma flags_route_body:
  assumes "temporalFlagOK (Some mt) sid exp"
  shows "keeps flagsKept
     (bindE (validateCollection name ty uid mt sid exp) (\<lambda>data.
      bindE (withDatabaseRetry (createCollection data)) (\<lambda>collection.
      bindE (uploadPhotos files collection mt sid exp) (\<lambda>_.
      returnE (Status201 collection)))))"
proof (cases "parseCollectionType ty")
  case None
  then show ?thesis
    by (simp add: validateCollection_def bindE_raise keeps_raise [OF frame_flagsKept])
next
  case (Some t)
  have "keeps flagsKept
     (bindE (withDatabaseRetry (createCollection
          \<lparr>ic_name = name, ic_type = t, ic_userId = Some uid, ic_isTemporary = Some mt,
           ic_sessionId = sid, ic_expiresAt = exp\<rparr>)) (\<lambda>collection.
      bindE (uploadPhotos files collection mt sid exp) (\<lambda>_.
      returnE (Status201 collection))))"
    unfolding withDatabaseRetry_def
    by (intro keeps_bindE keeps_attempts frame_flagsKept flags_createCollection
        flags_uploadPhotos keeps_returnE) (simp_all add: assms)
  with Some show ?thesis
    by (simp add: validateCollection_def bindE_returnE)
qed

lemma flags_createCollectionRoute:
  assumes "truthyString (req_sessionId req)"
  shows "keeps flagsKept (createCollectionRoute req form now)"
proof (cases "req_user req")
  case None
  then have "createCollectionRoute req form now = catchE (returnE Status401) createFailed"
    by (simp add: createCollectionRoute_def)
  then show ?thesis
    by (simp add: keeps_catchE [OF frame_flagsKept keeps_returnE [OF frame_flagsKept]
          flags_createFailed])
next
  case (Some user)
  show ?thesis
  proof (cases "truthyString (form_name form)")
    case False
    with Some have "createCollectionRoute req form now = catchE (returnE Status400) createFailed"
      by (simp add: createCollectionRoute_def)
    then show ?thesis
      by (simp add: keeps_catchE [OF frame_flagsKept keeps_returnE [OF frame_flagsKept]
            flags_createFailed])
  next
    case True
    define mt where "mt = (form_isTemporary form = JsString ''true''
                            \<or> form_isTemporary form = JsBool True)"
    define sid where "sid = (if mt then req_sessionId req else None)"
    define exp where "exp = (if mt \<and> truthyString sid then Some (now + 10 * 60 * 1000) else None)"
    have ok: "temporalFlagOK (Some mt) sid exp"
      unfolding sid_def exp_def by (rule route_flags [OF assms])
    have "createCollectionRoute req form now =
        catchE (bindE (validateCollection (orDefault (form_name form) [])
                           (orDefault (form_type form) ''custom'') (ru_id user) mt sid exp)
                 (\<lambda>data.
                  bindE (withDatabaseRetry (createCollection data)) (\<lambda>collection.
                  bindE (uploadPhotos (form_files form) collection mt sid exp) (\<lambda>_.
                  returnE (Status201 collection))))) createFailed"
      using Some True by (simp add: createCollectionRoute_def Let_def mt_def sid_def exp_def)
    then show ?thesis
      by (simp add: keeps_catchE [OF frame_flagsKept flags_route_body [OF ok] flags_createFailed])
  qed
qed


text \<open>
  C9. Whatever statements raise, after the authenticated create-collection handler
  (\<open>requireAuth\<close> has set a non-empty \<open>req.sessionId\<close>), after
  \<open>makeCollectionPermanent\<close> and after \<open>makePhotoPermanent\<close>, every collection row
  and every photo row is either a row that was there before, unchanged, or satisfies the
  temporal-flag invariant: \<open>isTemporary = true\<close> implies that \<open>sessionId\<close> and
  \<open>expiresAt\<close> are both non-null, \<open>isTemporary = false\<close> that both are null.
\<close>

theorem temporal_flag_invariant:
  "(truthyString (req_sessionId req) \<longrightarrow>
      flagsKept w (snd (createCollectionRoute req form now w)))
   \<and> flagsKept w (snd (makeCollectionPermanent i w))
   \<and> flagsKept w (snd (makePhotoPermanent j w))"
  using keepsD [OF flags_createCollectionRoute] keepsD [OF flags_makeCollectionPermanent]
    keepsD [OF flags_makePhotoPermanent] by blast

theorem temporal_flag_invariant_witness:
  "truthyString (req_sessionId aliceRequest)
   \<and> tripAlbum \<in> set (collections
         (snd (createCollectionRoute aliceRequest tripForm 1700000000000 worldAlice)))
   \<and> tripAlbum \<notin> set (collections worldAlice)
   \<and> collectionFlagOK tripAlbum \<and> collection_isTemporary tripAlbum = Some True
   \<and> tripPhoto \<in> set (photos
         (snd (createCollectionRoute aliceRequest tripForm 1700000000000 worldAlice)))
   \<and> tripPhoto \<notin> set (photos worldAlice)
   \<and> photoFlagOK tripPhoto \<and> photo_isTemporary tripPhoto = Some True
   \<and> permanentAlbum \<in> set (collections (snd (makeCollectionPermanent 10 worldAlice)))
   \<and> permanentAlbum \<notin> set (collections worldAlice)
   \<and> collectionFlagOK permanentAlbum \<and> collection_isTemporary permanentAlbum = Some False
   \<and> permanentPhoto \<in> set (photos (snd (makePhotoPermanent 20 worldAlice)))
   \<and> permanentPhoto \<notin> set (photos worldAlice)
   \<and> photoFlagOK permanentPhoto \<and> photo_isTemporary permanentPhoto = Some False"
proof -
  have auth: "truthyString (req_sessionId aliceRequest)"
    by (simp add: aliceRequest_def truthyString_def)
  have run: "createCollectionRoute aliceRequest tripForm 1700000000000 worldAlice =
     (Status201 tripAlbum,
      worldAlice\<lparr>collections := [tempAlbum, tripAlbum],
        collectionOwners := [\<lparr>owner_collectionId = 10, owner_userId = 7\<rparr>,
                             \<lparr>owner_collectionId = 100, owner_userId = 7\<rparr>],
        photos := [tempPhoto, tripPhoto], collectionSeq := 101, photoSeq := 101,
        blobs := [''uploads/photo-1700000000000-5.png'', ''uploads/p.png'']\<rparr>)"
    by code_simp
  have c1: "tripAlbum \<in> set (collections
         (snd (createCollectionRoute aliceRequest tripForm 1700000000000 worldAlice)))"
    and p1: "tripPhoto \<in> set (photos
         (snd (createCollectionRoute aliceRequest tripForm 1700000000000 worldAlice)))"
    unfolding run by simp_all
  have c2: "permanentAlbum \<in> set (collections (snd (makeCollectionPermanent 10 worldAlice)))"
    by code_simp
  have p2: "permanentPhoto \<in> set (photos (snd (makePhotoPermanent 20 worldAlice)))"
    by code_simp
  have new: "tripAlbum \<notin> set (collections worldAlice)" "tripPhoto \<notin> set (photos worldAlice)"
    "permanentAlbum \<notin> set (collections worldAlice)" "permanentPhoto \<notin> set (photos worldAlice)"
    by (simp_all add: worldAlice_def emptyWorld_def tripAlbum_def tempAlbum_def tripPhoto_def
        tempPhoto_def permanentAlbum_def permanentPhoto_def)
  have temp: "collection_isTemporary tripAlbum = Some True" "photo_isTemporary tripPhoto = Some True"
    "collection_isTemporary permanentAlbum = Some False"
    "photo_isTemporary permanentPhoto = Some False"
    by (simp_all add: tripAlbum_def tripPhoto_def permanentAlbum_def permanentPhoto_def)
  note k = temporal_flag_invariant
    [where req = aliceRequest and form = tripForm and now = 1700000000000 and w = worldAlice
       and i = 10 and j = 20, unfolded flagsKept_def]
  from k auth c1 new(1) have ok1: "collectionFlagOK tripAlbum" by blast
  from k auth p1 new(2) have ok2: "photoFlagOK tripPhoto" by blast
  from k c2 new(3) have ok3: "collectionFlagOK permanentAlbum" by blast
  from k p2 new(4) have ok4: "photoFlagOK permanentPhoto" by blast
  show ?thesis using auth c1 p1 c2 p2 new temp ok1 ok2 ok3 ok4 by blast
qed

section \<open>Order of blob and row deletions\<close>

lemma effectsOf_simps [simp]:
  "effectsOf [] = []"
  "effectsOf (xs @ ys) = effectsOf xs @ effectsOf ys"
  "effectsOf (ConsoleError m # xs) = effectsOf xs"
  "effectsOf (BlobDeleteAttempt k # xs) = BlobDeleteAttempt k # effectsOf xs"
  "effectsOf (PhotoRowsDeleted ids # xs) = PhotoRowsDeleted ids # effectsOf xs"
  by (simp_all add: effectsOf_def)

lemma deletePhoto_shape:
  "\<exists>bs fs evs. snd (deletePhotoFromFirebaseStorage fp w)
       = w\<lparr>blobs := bs, blobFaults := fs, trace := trace w @ evs\<rparr>
     \<and> effectsOf evs = [BlobDeleteAttempt (objectName fp)]"
proof -
  let ?k = "objectName fp"
  let ?a = "BlobDeleteAttempt ?k"
  let ?e = "ConsoleError ''Error deleting photo from Firebase Storage:''"
  note defs = deletePhotoFromFirebaseStorage_def catchE_def blob_delete_def Let_def
    logged_def console_error_def
  have shape: "snd (deletePhotoFromFirebaseStorage fp w)
        = w\<lparr>blobs := (if ?k \<in> set (blobs w) \<and> (blobFaults w = [] \<or> \<not> hd (blobFaults w))
                       then removeAll ?k (blobs w) else blobs w),
             blobFaults := tl (blobFaults w),
             trace := trace w @ (if ?k \<in> set (blobs w) \<and> (blobFaults w = [] \<or> \<not> hd (blobFaults w))
                                 then [?a] else [?a, ?e])\<rparr>"
  proof (cases "blobFaults w")
    case Nil
    then show ?thesis by (simp add: defs)
  next
    case (Cons x fs)
    then show ?thesis by (cases x) (simp_all add: defs)
  qed
  show ?thesis
    by (rule exI, rule exI, rule exI, rule conjI, rule shape) simp
qed

lemma deleteBlobsOf_shape:
  "\<exists>bs fs evs. snd (deleteBlobsOf ps w)
       = w\<lparr>blobs := bs, blobFaults := fs, trace := trace w @ evs\<rparr>
     \<and> effectsOf evs = blobAttempts ps"
proof (induction ps arbitrary: w)
  case Nil
  have "snd (deleteBlobsOf [] w) = w\<lparr>blobs := blobs w, blobFaults := blobFaults w,
      trace := trace w @ []\<rparr>"
    by (simp add: deleteBlobsOf_def)
  moreover have "effectsOf [] = blobAttempts []" by (simp add: blobAttempts_def)
  ultimately show ?case by blast
next
  case (Cons p ps)
  let ?w1 = "snd (deletePhotoFromFirebaseStorage (photo_filePath p) w)"
  obtain bs fs evs where 1: "?w1 = w\<lparr>blobs := bs, blobFaults := fs, trace := trace w @ evs\<rparr>"
    and e1: "effectsOf evs = [BlobDeleteAttempt (objectName (photo_filePath p))]"
    using deletePhoto_shape by blast
  obtain bs' fs' evs' where 2: "snd (deleteBlobsOf ps ?w1)
       = ?w1\<lparr>blobs := bs', blobFaults := fs', trace := trace ?w1 @ evs'\<rparr>"
    and e2: "effectsOf evs' = blobAttempts ps"
    using Cons.IH by blast
  have step: "snd (deleteBlobsOf (p # ps) w) = snd (deleteBlobsOf ps ?w1)"
    by (simp add: deleteBlobsOf_def catchE_def lift_def split: prod.splits)
  have "snd (deleteBlobsOf (p # ps) w)
      = w\<lparr>blobs := bs', blobFaults := fs', trace := trace w @ (evs @ evs')\<rparr>"
    unfolding step 2 unfolding 1 by simp
  moreover have "effectsOf (evs @ evs') = blobAttempts (p # ps)"
    using e1 e2 by (simp add: blobAttempts_def)
  ultimately show ?case by blast
qed


lemma deleteBlobsOf_fields [simp]:
  "photos (snd (deleteBlobsOf ps w)) = photos w"
  "collections (snd (deleteBlobsOf ps w)) = collections w"
  "dbFaults (snd (deleteBlobsOf ps w)) = dbFaults w"
proof -
  obtain bs fs evs where "snd (deleteBlobsOf ps w)
       = w\<lparr>blobs := bs, blobFaults := fs, trace := trace w @ evs\<rparr>"
    using deleteBlobsOf_shape by blast
  then show "photos (snd (deleteBlobsOf ps w)) = photos w"
    "collections (snd (deleteBlobsOf ps w)) = collections w"
    "dbFaults (snd (deleteBlobsOf ps w)) = dbFaults w"
    by simp_all
qed

lemma deleteBlobsOf_trace:
  "trace (snd (deleteBlobsOf ps w)) = trace w @ newEvents w (snd (deleteBlobsOf ps w))"
  "effectsOf (newEvents w (snd (deleteBlobsOf ps w))) = blobAttempts ps"
proof -
  obtain bs fs evs where 1: "snd (deleteBlobsOf ps w)
       = w\<lparr>blobs := bs, blobFaults := fs, trace := trace w @ evs\<rparr>"
    and 2: "effectsOf evs = blobAttempts ps"
    using deleteBlobsOf_shape by blast
  have n: "newEvents w (snd (deleteBlobsOf ps w)) = evs"
    unfolding 1 by (simp add: newEvents_def)
  show "trace (snd (deleteBlobsOf ps w)) = trace w @ newEvents w (snd (deleteBlobsOf ps w))"
    unfolding n unfolding 1 by simp
  show "effectsOf (newEvents w (snd (deleteBlobsOf ps w))) = blobAttempts ps"
    unfolding n by (rule 2)
qed

lemma newEvents_append: "trace w' = trace w @ evs \<Longrightarrow> newEvents w w' = evs"
  by (simp add: newEvents_def)

lemma bindE_exec_nf: "dbFaults w = [] \<Longrightarrow> bindE (db_exec g) f w = f () (g w)"
  by (simp add: bindE_def db_exec_def db_stmt_def)

lemma bindE_select_fault:
  "dbFaults w = Some e # fs \<Longrightarrow>
   bindE (db_select q) f w = (Inl (DbError e), w\<lparr>dbFaults := fs\<rparr>)"
  "dbFaults w = None # fs \<Longrightarrow>
   bindE (db_select q) f w = f (q (w\<lparr>dbFaults := fs\<rparr>)) (w\<lparr>dbFaults := fs\<rparr>)"
  by (simp_all add: bindE_def db_select_def db_stmt_def)

lemma bindE_exec_fault:
  "dbFaults w = Some e # fs \<Longrightarrow>
   bindE (db_exec g) f w = (Inl (DbError e), w\<lparr>dbFaults := fs\<rparr>)"
  "dbFaults w = None # fs \<Longrightarrow> bindE (db_exec g) f w = f () (g (w\<lparr>dbFaults := fs\<rparr>))"
  by (simp_all add: bindE_def db_exec_def db_stmt_def)

lemma db_exec_fault:
  "dbFaults w = Some e # fs \<Longrightarrow> db_exec g w = (Inl (DbError e), w\<lparr>dbFaults := fs\<rparr>)"
  "dbFaults w = None # fs \<Longrightarrow> db_exec g w = (Inr (), g (w\<lparr>dbFaults := fs\<rparr>))"
  by (simp_all add: db_exec_def db_stmt_def)

text \<open>The four steps shared by the sweep and the per-session teardown.\<close>

lemma blobs_then_rows:
  fixes P :: "photo \<Rightarrow> bool" and C :: "collection \<Rightarrow> bool" and msg :: string and w :: world
  defines "m \<equiv> catchE
       (bindE (db_select (\<lambda>w. filter P (photos w))) (\<lambda>ps.
        bindE (lift (deleteBlobsOf ps)) (\<lambda>_.
        bindE (db_exec (remove_photos P)) (\<lambda>_.
        db_exec (remove_collections C)))))
       (logged msg ())"
  defines "full \<equiv> blobAttempts (filter P (photos w))
                    @ [PhotoRowsDeleted (map photo_id (filter P (photos w)))]"
  shows "trace (snd (m w)) = trace w @ newEvents w (snd (m w))
     \<and> (effectsOf (newEvents w (snd (m w))) = []
        \<or> effectsOf (newEvents w (snd (m w))) = blobAttempts (filter P (photos w))
        \<or> effectsOf (newEvents w (snd (m w))) = full)
     \<and> (dbFaults w = [] \<longrightarrow>
          effectsOf (newEvents w (snd (m w))) = full
        \<and> photos (snd (m w)) = filter (\<lambda>p. \<not> P p) (photos w))"
proof -
  let ?ps = "filter P (photos w)"
  let ?D = "PhotoRowsDeleted (map photo_id ?ps)"
  have "\<exists>evs. trace (snd (m w)) = trace w @ evs
      \<and> (effectsOf evs = [] \<or> effectsOf evs = blobAttempts ?ps \<or> effectsOf evs = full)
      \<and> (dbFaults w = [] \<longrightarrow> effectsOf evs = full
            \<and> photos (snd (m w)) = filter (\<lambda>p. \<not> P p) (photos w))"
  proof (cases "dbFaults w")
    case Nil
    let ?w1 = "snd (deleteBlobsOf ?ps w)"
    have "snd (m w) = remove_collections C (remove_photos P ?w1)"
      using Nil by (simp add: m_def catchE_def bindE_select_nf bindE_lift bindE_exec_nf db_exec_nf)
    then have "trace (snd (m w)) = trace w @ (newEvents w ?w1 @ [?D])"
      and "photos (snd (m w)) = filter (\<lambda>p. \<not> P p) (photos w)"
      by (simp_all add: remove_collections_def remove_photos_def remove_owners_def Let_def
          deleteBlobsOf_trace(1))
    moreover have "effectsOf (newEvents w ?w1 @ [?D]) = full"
      by (simp add: deleteBlobsOf_trace(2) full_def)
    ultimately show ?thesis by blast
  next
    case (Cons f fs)
    note rm = remove_collections_def remove_photos_def remove_owners_def Let_def
    have nz: "dbFaults w \<noteq> []" using Cons by simp
    show ?thesis
    proof (cases f)
      case (Some e)
      with Cons have "trace (snd (m w)) = trace w @ [ConsoleError msg]"
        by (simp add: m_def catchE_def bindE_select_fault logged_def console_error_def)
      moreover have "effectsOf [ConsoleError msg] = []" by simp
      ultimately show ?thesis using nz by blast
    next
      case None
      let ?w0 = "w\<lparr>dbFaults := fs\<rparr>"
      let ?w1 = "snd (deleteBlobsOf ?ps ?w0)"
      let ?evs = "newEvents ?w0 ?w1"
      have t1: "trace ?w1 = trace w @ ?evs" using deleteBlobsOf_trace(1) [of ?ps ?w0] by simp
      have e1: "effectsOf ?evs = blobAttempts ?ps" by (rule deleteBlobsOf_trace(2))
      have d1: "dbFaults ?w1 = fs" by simp
      have run: "m w = catchE (bindE (db_exec (remove_photos P))
             (\<lambda>_. db_exec (remove_collections C))) (logged msg ()) ?w1"
        using Cons None by (simp add: m_def catchE_def bindE_select_fault bindE_lift)
      show ?thesis
      proof (cases fs)
        case Nil
        with d1 have d: "dbFaults ?w1 = []" by simp
        have d': "dbFaults (remove_photos P ?w1) = []" using d by (simp add: rm)
        have "snd (m w) = remove_collections C (remove_photos P ?w1)"
          unfolding run by (simp add: catchE_def bindE_exec_nf [OF d] db_exec_nf [OF d'])
        then have "trace (snd (m w)) = trace w @ (?evs @ [?D])"
          by (simp add: rm t1)
        moreover have "effectsOf (?evs @ [?D]) = full" by (simp add: e1 full_def)
        ultimately show ?thesis using nz by blast
      next
        case (Cons g gs)
        show ?thesis
        proof (cases g)
          case (Some e)
          with Cons d1 have d: "dbFaults ?w1 = Some e # gs" by simp
          have "trace (snd (m w)) = trace w @ (?evs @ [ConsoleError msg])"
            unfolding run
            by (simp add: catchE_def bindE_exec_fault(1) [OF d] logged_def console_error_def t1)
          moreover have "effectsOf (?evs @ [ConsoleError msg]) = blobAttempts ?ps"
            by (simp add: e1)
          ultimately show ?thesis using nz by blast
        next
          case None
          let ?w2 = "remove_photos P (?w1\<lparr>dbFaults := gs\<rparr>)"
          have t2: "trace ?w2 = trace w @ (?evs @ [?D])"
            by (simp add: rm t1)
          from Cons None d1 have d: "dbFaults ?w1 = None # gs" by simp
          have run2: "m w = catchE (db_exec (remove_collections C)) (logged msg ()) ?w2"
            unfolding run by (simp add: catchE_def bindE_exec_fault(2) [OF d])
          have "trace (snd (m w)) = trace w @ (?evs @ [?D])
              \<or> trace (snd (m w)) = trace w @ (?evs @ [?D] @ [ConsoleError msg])"
          proof (cases gs)
            case Nil
            then have d2: "dbFaults ?w2 = []" by (simp add: rm)
            have "snd (m w) = remove_collections C ?w2"
              unfolding run2 by (simp add: catchE_def db_exec_nf [OF d2])
            then have "trace (snd (m w)) = trace ?w2" by (simp add: rm)
            then show ?thesis unfolding t2 by blast
          next
            case (Cons h hs)
            then have d2: "dbFaults ?w2 = h # hs" by (simp add: rm)
            show ?thesis
            proof (cases h)
              case None
              with d2 have d3: "dbFaults ?w2 = None # hs" by simp
              have "snd (m w) = remove_collections C (?w2\<lparr>dbFaults := hs\<rparr>)"
                unfolding run2 by (simp add: catchE_def db_exec_fault(2) [OF d3])
              then have "trace (snd (m w)) = trace ?w2" by (simp add: rm)
              then show ?thesis unfolding t2 by blast
            next
              case (Some e)
              with d2 have d3: "dbFaults ?w2 = Some e # hs" by simp
              have "snd (m w) = console_error msg (?w2\<lparr>dbFaults := hs\<rparr>)"
                unfolding run2 by (simp add: catchE_def db_exec_fault(1) [OF d3] logged_def)
              then have "trace (snd (m w)) = trace ?w2 @ [ConsoleError msg]"
                by (simp add: console_error_def)
              then show ?thesis unfolding t2 by simp
            qed
          qed
          moreover have "effectsOf (?evs @ [?D]) = full"
            "effectsOf (?evs @ [?D] @ [ConsoleError msg]) = full"
            by (simp_all add: e1 full_def)
          ultimately show ?thesis using nz by blast
        qed
      qed
    qed
  qed
  then obtain evs where 1: "trace (snd (m w)) = trace w @ evs"
    and 2: "effectsOf evs = [] \<or> effectsOf evs = blobAttempts ?ps \<or> effectsOf evs = full"
    and 3: "dbFaults w = [] \<longrightarrow> effectsOf evs = full
            \<and> photos (snd (m w)) = filter (\<lambda>p. \<not> P p) (photos w)"
    by blast
  have n: "newEvents w (snd (m w)) = evs" by (rule newEvents_append [OF 1])
  show ?thesis unfolding n using 1 2 3 by blast
qed


lemma effectsOf_subset: "set (effectsOf evs) \<subseteq> set evs"
  by (auto simp: effectsOf_def)

lemma blobAttempts_not_rows: "e \<in> set (blobAttempts ps) \<Longrightarrow> \<not> isPhotoRowsDeleted e"
  by (auto simp: blobAttempts_def)

lemma rows_not_console: "isPhotoRowsDeleted e \<Longrightarrow> \<not> isConsoleError e"
  by (cases e) simp_all

lemma attempts_before_rows:
  assumes pre: "isPrefixOf (effectsOf evs) (blobAttempts ps @ [D])"
    and i: "i < length evs" and r: "isPhotoRowsDeleted (evs ! i)"
  shows "set (blobAttempts ps) \<subseteq> set (take i evs)"
proof -
  let ?A = "blobAttempts ps"
  let ?X = "effectsOf (take i evs)"
  have split: "evs = take i evs @ evs ! i # drop (Suc i) evs"
    using i by (simp add: id_take_nth_drop)
  have eff: "effectsOf evs = ?X @ evs ! i # effectsOf (drop (Suc i) evs)"
    using rows_not_console [OF r]
    by (subst split) (simp add: effectsOf_def)
  have tk: "take (length (effectsOf evs)) (?A @ [D]) = effectsOf evs"
    using pre by (simp add: isPrefixOf_def)
  have len: "length (effectsOf evs) \<le> length ?A + 1"
    using arg_cong [OF tk, of length] by simp
  have lx: "length ?X < length (effectsOf evs)" by (subst eff) simp
  have nth: "(?A @ [D]) ! length ?X = evs ! i"
  proof -
    have "take (length (effectsOf evs)) (?A @ [D]) ! length ?X = (?A @ [D]) ! length ?X"
      by (rule nth_take [OF lx])
    moreover have "effectsOf evs ! length ?X = evs ! i"
      by (subst eff) simp
    ultimately show ?thesis using tk by simp
  qed
  have ge: "\<not> length ?X < length ?A"
  proof
    assume l: "length ?X < length ?A"
    then have "(?A @ [D]) ! length ?X \<in> set ?A" by (simp add: nth_append)
    with nth r blobAttempts_not_rows show False by metis
  qed
  with lx len have eq: "length ?X = length ?A" by simp
  have "take (length ?X) (effectsOf evs) = ?X" by (subst eff) simp
  moreover have "take (length ?X) (effectsOf evs) = take (length ?X) (?A @ [D])"
    using lx by (subst tk [symmetric]) (simp add: min_def)
  ultimately have "?X = ?A" using eq by simp
  then show ?thesis using effectsOf_subset [of "take i evs"] by simp
qed

lemma orderedCleanup_blobs_then_rows:
  fixes P :: "photo \<Rightarrow> bool"
  shows "orderedCleanup P w (snd (catchE
       (bindE (db_select (\<lambda>w. filter P (photos w))) (\<lambda>ps.
        bindE (lift (deleteBlobsOf ps)) (\<lambda>_.
        bindE (db_exec (remove_photos P)) (\<lambda>_.
        db_exec (remove_collections C)))))
       (logged msg ()) w))"
proof -
  let ?m = "catchE
       (bindE (db_select (\<lambda>w. filter P (photos w))) (\<lambda>ps.
        bindE (lift (deleteBlobsOf ps)) (\<lambda>_.
        bindE (db_exec (remove_photos P)) (\<lambda>_.
        db_exec (remove_collections C)))))
       (logged msg ())"
  let ?ps = "filter P (photos w)"
  let ?D = "PhotoRowsDeleted (map photo_id ?ps)"
  let ?full = "blobAttempts ?ps @ [?D]"
  let ?evs = "newEvents w (snd (?m w))"
  note b = blobs_then_rows [of P C msg w]
  from b have 1: "trace (snd (?m w)) = trace w @ ?evs" by blast
  from b have 2: "effectsOf ?evs = [] \<or> effectsOf ?evs = blobAttempts ?ps \<or> effectsOf ?evs = ?full"
    by blast
  from b have 3: "dbFaults w = [] \<longrightarrow> effectsOf ?evs = ?full
        \<and> photos (snd (?m w)) = filter (\<lambda>p. \<not> P p) (photos w)"
    by blast
  from 2 have pre: "isPrefixOf (effectsOf ?evs) ?full"
    by (auto simp: isPrefixOf_def)
  have 4: "\<forall>p \<in> set ?ps. \<forall>i < length ?evs. isPhotoRowsDeleted (?evs ! i) \<longrightarrow>
               BlobDeleteAttempt (objectName (photo_filePath p)) \<in> set (take i ?evs)"
  proof (intro ballI allI impI)
    fix p i
    assume p: "p \<in> set ?ps" and i: "i < length ?evs" and r: "isPhotoRowsDeleted (?evs ! i)"
    have "BlobDeleteAttempt (objectName (photo_filePath p)) \<in> set (blobAttempts ?ps)"
      using p by (auto simp: blobAttempts_def)
    with attempts_before_rows [OF pre i r]
    show "BlobDeleteAttempt (objectName (photo_filePath p)) \<in> set (take i ?evs)" by blast
  qed
  show ?thesis
    unfolding orderedCleanup_def Let_def using 1 pre 4 3 by blast
qed


text \<open>
  C8. Within one call of \<open>cleanExpiredTemporaryContent\<close> or of
  \<open>deleteTemporaryContentForSession\<close>, whatever the database and the blob store do:
  wherever photo rows are removed, the blob deletion of every affected photo has been
  requested before, with the object name made from the row's stored \<open>filePath\<close>; a
  failed blob deletion is logged and swallowed; and when no database statement raises,
  the affected rows are removed whatever blob deletions failed.
\<close>

theorem blob_deletion_before_row_deletion:
  "orderedCleanup (expiredTemporaryPhoto now) w (snd (cleanExpiredTemporaryContent now w))
   \<and> orderedCleanup (sessionPhoto sid) w (snd (deleteTemporaryContentForSession sid w))
   \<and> (fst (blob_delete (objectName filePath) w) = Inl BlobError \<longrightarrow>
        deletePhotoFromFirebaseStorage filePath w =
          ((), console_error ''Error deleting photo from Firebase Storage:''
                 (snd (blob_delete (objectName filePath) w))))"
proof (intro conjI impI)
  show "orderedCleanup (expiredTemporaryPhoto now) w (snd (cleanExpiredTemporaryContent now w))"
    unfolding cleanExpiredTemporaryContent_def by (rule orderedCleanup_blobs_then_rows)
  show "orderedCleanup (sessionPhoto sid) w (snd (deleteTemporaryContentForSession sid w))"
    unfolding deleteTemporaryContentForSession_def by (rule orderedCleanup_blobs_then_rows)
next
  assume "fst (blob_delete (objectName filePath) w) = Inl BlobError"
  then show "deletePhotoFromFirebaseStorage filePath w =
          ((), console_error ''Error deleting photo from Firebase Storage:''
                 (snd (blob_delete (objectName filePath) w)))"
    by (cases "blob_delete (objectName filePath) w")
      (simp add: deletePhotoFromFirebaseStorage_def catchE_def logged_def)
qed

theorem blob_deletion_before_row_deletion_witness:
  "dbFaults worldSweep = []
   \<and> expiredPhotoA \<in> set (filter (expiredTemporaryPhoto 1700000000000) (photos worldSweep))
   \<and> newEvents worldSweep (snd (cleanExpiredTemporaryContent 1700000000000 worldSweep)) =
       [BlobDeleteAttempt ''uploads/a.png'',
        ConsoleError ''Error deleting photo from Firebase Storage:'',
        BlobDeleteAttempt ''uploads/b.png'', PhotoRowsDeleted [21, 22]]
   \<and> BlobDeleteAttempt (objectName (photo_filePath expiredPhotoA))
       \<in> set (take 3 (newEvents worldSweep
                 (snd (cleanExpiredTemporaryContent 1700000000000 worldSweep))))
   \<and> photos (snd (cleanExpiredTemporaryContent 1700000000000 worldSweep))
       = filter (\<lambda>p. \<not> expiredTemporaryPhoto 1700000000000 p) (photos worldSweep)
   \<and> photos (snd (cleanExpiredTemporaryContent 1700000000000 worldSweep)) = [photoA]
   \<and> expiredPhotoB \<in> set (filter (sessionPhoto ''s1'') (photos worldSweep))
   \<and> BlobDeleteAttempt (objectName (photo_filePath expiredPhotoB))
       \<in> set (take 3 (newEvents worldSweep
                 (snd (deleteTemporaryContentForSession ''s1'' worldSweep))))
   \<and> photos (snd (deleteTemporaryContentForSession ''s1'' worldSweep))
       = filter (\<lambda>p. \<not> sessionPhoto ''s1'' p) (photos worldSweep)
   \<and> fst (blob_delete (objectName ''a.png'') worldSweep) = Inl BlobError
   \<and> deletePhotoFromFirebaseStorage ''a.png'' worldSweep =
       ((), console_error ''Error deleting photo from Firebase Storage:''
              (snd (blob_delete (objectName ''a.png'') worldSweep)))"
proof -
  let ?e1 = "newEvents worldSweep (snd (cleanExpiredTemporaryContent 1700000000000 worldSweep))"
  let ?e2 = "newEvents worldSweep (snd (deleteTemporaryContentForSession ''s1'' worldSweep))"
  have nf: "dbFaults worldSweep = []" by (simp add: worldSweep_def emptyWorld_def)
  have m1: "expiredPhotoA \<in> set (filter (expiredTemporaryPhoto 1700000000000) (photos worldSweep))"
    and m2: "expiredPhotoB \<in> set (filter (sessionPhoto ''s1'') (photos worldSweep))"
    by (simp_all add: worldSweep_def emptyWorld_def expiredPhotoA_def expiredPhotoB_def
        expiredTemporaryPhoto_def sessionPhoto_def sql_lt_def)
  have ev1: "?e1 = [BlobDeleteAttempt ''uploads/a.png'',
        ConsoleError ''Error deleting photo from Firebase Storage:'',
        BlobDeleteAttempt ''uploads/b.png'', PhotoRowsDeleted [21, 22]]"
    by code_simp
  have ev2: "?e2 = [BlobDeleteAttempt ''uploads/a.png'',
        ConsoleError ''Error deleting photo from Firebase Storage:'',
        BlobDeleteAttempt ''uploads/b.png'', PhotoRowsDeleted [21, 22]]"
    by code_simp
  have i1: "3 < length ?e1" "isPhotoRowsDeleted (?e1 ! 3)" unfolding ev1 by simp_all
  have i2: "3 < length ?e2" "isPhotoRowsDeleted (?e2 ! 3)" unfolding ev2 by simp_all
  have fail: "fst (blob_delete (objectName ''a.png'') worldSweep) = Inl BlobError"
    by code_simp
  have left: "photos (snd (cleanExpiredTemporaryContent 1700000000000 worldSweep)) = [photoA]"
    by code_simp
  note k = blob_deletion_before_row_deletion
    [where now = 1700000000000 and w = worldSweep and sid = "''s1''" and filePath = "''a.png''",
      unfolded orderedCleanup_def Let_def]
  from k m1 i1 have o1: "BlobDeleteAttempt (objectName (photo_filePath expiredPhotoA))
       \<in> set (take 3 ?e1)"
    by blast
  from k m2 i2 have o2: "BlobDeleteAttempt (objectName (photo_filePath expiredPhotoB))
       \<in> set (take 3 ?e2)"
    by blast
  from k nf have r1: "photos (snd (cleanExpiredTemporaryContent 1700000000000 worldSweep))
       = filter (\<lambda>p. \<not> expiredTemporaryPhoto 1700000000000 p) (photos worldSweep)"
    and r2: "photos (snd (deleteTemporaryContentForSession ''s1'' worldSweep))
       = filter (\<lambda>p. \<not> sessionPhoto ''s1'' p) (photos worldSweep)"
    by blast+
  from k fail have l: "deletePhotoFromFirebaseStorage ''a.png'' worldSweep =
       ((), console_error ''Error deleting photo from Firebase Storage:''
              (snd (blob_delete (objectName ''a.png'') worldSweep)))"
    by blast
  show ?thesis using nf m1 ev1 o1 r1 left m2 o2 r2 fail l by blast
qed

section \<open>Session renewal and temporary content\<close>

text \<open>
  C1. The claim is that after \<open>POST /auth/refresh\<close> every temporary collection and
  photo tied to the session still exists and expires with the renewed session. On the
  database of \<open>worldAlice\<close> the renewal succeeds and issues session \<open>s2\<close>, but the
  temporary collection and photo that were tied to \<open>s1\<close> are gone: removing the old
  session row removes them (\<open>onDelete: "cascade"\<close> on their \<open>sessionId\<close>).
\<close>

theorem refreshSession_drops_temporary_content:
  "sessionCollection ''s1'' tempAlbum \<and> tempAlbum \<in> set (collections worldAlice)
   \<and> sessionPhoto ''s1'' tempPhoto \<and> tempPhoto \<in> set (photos worldAlice)
   \<and> fst (refreshSession aliceRequest ''s2'' 1700000000000 worldAlice)
        = Refreshed ''s2'' 1700000600000
   \<and> sessions (snd (refreshSession aliceRequest ''s2'' 1700000000000 worldAlice))
        = [\<lparr>session_id = ''s2'', session_userId = 7, session_username = ''alice'',
            session_expiresAt = 1700000600000\<rparr>]
   \<and> collections (snd (refreshSession aliceRequest ''s2'' 1700000000000 worldAlice)) = []
   \<and> photos (snd (refreshSession aliceRequest ''s2'' 1700000000000 worldAlice)) = []
   \<and> fst (getTemporaryContentBySession ''s2''
            (snd (refreshSession aliceRequest ''s2'' 1700000000000 worldAlice))) = ([], [])
   \<and> fst (getTemporaryContentBySession ''s1''
            (snd (refreshSession aliceRequest ''s2'' 1700000000000 worldAlice))) = ([], [])"
  by (simp add: refreshSession_def getTemporaryContentBySession_def aliceRequest_def worldAlice_def emptyWorld_def alice_def
      aliceSession_def tempAlbum_def tempPhoto_def sessionCollection_def sessionPhoto_def
      extendTemporaryContentExpiration_def extend_collections_def extend_photos_def
      deleteSession_def store_delete_def isTemporaryDemoUser_def DEMO_USER_PREFIX_def
      cleanupDemoUserContentForSession_def sessionUsers_def DEMO_USERNAME_def
      createSession_def store_set_def SESSION_DURATION_def monad_defs table_defs Let_def)

section \<open>Ephemeral accounts\<close>

text \<open>
  C2. The claim is that \<open>cleanupExpiredDemoUsers\<close> leaves alone every reserved-prefix
  account that still has an unexpired session. The session of \<open>demoAccount\<close> expires
  five minutes after the sweep, and the sweep deletes the account and its session: the
  query for active sessions compares \<open>expiresAt\<close> for equality with the current time.
\<close>

theorem cleanupExpiredDemoUsers_removes_live_account:
  "isTemporaryDemoUser (user_username demoAccount)
   \<and> session_userId demoAccountSession = user_id demoAccount
   \<and> 1700000300000 < session_expiresAt demoAccountSession
   \<and> users worldEphemeral = [demoAccount] \<and> sessions worldEphemeral = [demoAccountSession]
   \<and> users (snd (cleanupExpiredDemoUsers 1700000300000 worldEphemeral)) = []
   \<and> sessions (snd (cleanupExpiredDemoUsers 1700000300000 worldEphemeral)) = []"
  by code_simp

lemma generateDemoUsername_example:
  "generateDemoUsername 1700000000000 ''abc123'' = ''demo_1700000000000_abc123''"
  by (simp add: generateDemoUsername_def DEMO_USER_PREFIX_def decimal.simps)

text \<open>
  C3. The claim is that every protected collection that exists is granted to the new
  ephemeral account. In \<open>worldAlbum2\<close> protected collection 2 exists, the account is
  created, and it gets no ownership row: the grant is skipped altogether when the first
  id of the allowlist (collection 1) has no row.
\<close>

theorem createTemporaryDemoUser_skips_existing_collection:
  "sharedAlbum \<in> set (collections worldAlbum2)
   \<and> collection_id sharedAlbum \<in> set PROTECTED_COLLECTION_IDS
   \<and> fst (createTemporaryDemoUser ''abc123'' ''s9'' 1700000000000 worldAlbum2)
        = Inr (\<lparr>user_id = 100, user_username = ''demo_1700000000000_abc123'',
                user_displayName = ''Demo User 0_abc123''\<rparr>, ''s9'')
   \<and> collectionOwners (snd (createTemporaryDemoUser ''abc123'' ''s9'' 1700000000000 worldAlbum2)) = []"
  by (simp add: createTemporaryDemoUser_def generateDemoUsername_example worldAlbum2_def
      emptyWorld_def sharedAlbum_def grantAccessToProtectedCollections_def
      PROTECTED_COLLECTION_IDS_def createSession_def store_set_def SESSION_DURATION_def
      monad_defs table_defs Let_def)

end
